theory Spec2Isabelle
  imports Main "HOL-Library.Word"
begin

unbundle bit_operations_syntax

section \<open>Errors and basic types\<close>

text \<open>
  The two modules of the repository (the matcher \<open>MatchDynamicRemoteIP\<close> and the range source
  \<open>CloudflareIPRange\<close>) are built on a handful of functions of the Go standard library:
  \<open>net.SplitHostPort\<close>, \<open>strings.Cut\<close>, \<open>netip.ParseAddr\<close>, \<open>netip.ParsePrefix\<close>,
  \<open>netip.Prefix.Contains\<close> and \<open>bufio.Scanner\<close>. They are embedded here function by function,
  with the names of the Go sources. Go strings are byte sequences, as \<open>string\<close> is; a Go \<open>int\<close>
  (an index or a small count, never near its bounds here) is an \<open>int\<close> or a \<open>nat\<close>;
  \<open>uint8\<close>, \<open>uint32\<close> and \<open>uint64\<close> are words.

  Error messages are constructors, one for each message of the Go sources:
  \<^item> \<open>net.AddrError\<close>: the reason and the address;
  \<^item> \<open>netip.parseAddrError\<close>: the input and the message;
  \<^item> \<open>netip.parsePrefixError\<close>: the input and the message (for a bad address part, the
    error of the address, whose text the message is);
  \<^item> an error of the HTTP transport (no response), and an error of reading a response body,
    both opaque;
  \<^item> \<open>bufio.ErrTooLong\<close>, the scanner's error for a token that does not fit its buffer.
\<close>

type_synonym byte = "8 word"

datatype addr_why =
    missingPort           \<comment> \<open>missing port in address\<close>
  | tooManyColons         \<comment> \<open>too many colons in address\<close>
  | missingBracket        \<comment> \<open>missing ']' in address\<close>
  | unexpectedLBracket    \<comment> \<open>unexpected '[' in address\<close>
  | unexpectedRBracket    \<comment> \<open>unexpected ']' in address\<close>

datatype addr_msg =
    MissingIPv6Address    \<comment> \<open>missing IPv6 address\<close>
  | UnableToParseIP       \<comment> \<open>unable to parse IP\<close>
  | OctetLeadingZero      \<comment> \<open>IPv4 field has octet with leading zero\<close>
  | OctetTooBig           \<comment> \<open>IPv4 field has value >255\<close>
  | OctetNoDigit          \<comment> \<open>IPv4 field must have at least one digit\<close>
  | IPv4TooLong           \<comment> \<open>IPv4 address too long\<close>
  | UnexpectedCharacter   \<comment> \<open>unexpected character\<close>
  | IPv4TooShort          \<comment> \<open>IPv4 address too short\<close>
  | EmptyZone             \<comment> \<open>zone must be a non-empty string\<close>
  | GroupTooLong          \<comment> \<open>each group must have 4 or less digits\<close>
  | GroupTooBig           \<comment> \<open>IPv6 field has value >=2^16\<close>
  | GroupNoDigit          \<comment> \<open>each colon-separated field must have at least one digit\<close>
  | EmbeddedIPv4Misplaced \<comment> \<open>embedded IPv4 address must replace the final 2 fields of the address\<close>
  | EmbeddedIPv4NoRoom    \<comment> \<open>too many hex fields to fit an embedded IPv4 at the end of the address\<close>
  | WantColon             \<comment> \<open>unexpected character, want colon\<close>
  | ColonAtEnd            \<comment> \<open>colon must be followed by more characters\<close>
  | MultipleEllipsis      \<comment> \<open>multiple :: in address\<close>
  | TrailingGarbage       \<comment> \<open>trailing garbage after address\<close>
  | AddressTooShort       \<comment> \<open>address string too short\<close>
  | EmptyEllipsis         \<comment> \<open>the :: must expand to at least one field of zeros\<close>

datatype error =
    AddrError addr_why string
  | parseAddrError string addr_msg
  | parsePrefixError string prefix_msg
  | TransportError string
  | ReadError string
  | ErrTooLong
and prefix_msg =
    NoSlash               \<comment> \<open>no '/'\<close>
  | BadAddr error         \<comment> \<open>the message of the error of ParseAddr\<close>
  | ZoneInPrefix          \<comment> \<open>IPv6 zones cannot be present in a prefix\<close>
  | BadBits               \<comment> \<open>bad bits after slash\<close>
  | BitsOutOfRange        \<comment> \<open>prefix length out of range\<close>

section \<open>Strings: the helpers of the Go runtime\<close>

text \<open>\<open>bytealg.IndexByteString\<close>: the index of the first \<open>c\<close>, or -1.\<close>

fun IndexByteString :: "string \<Rightarrow> char \<Rightarrow> int" where
  "IndexByteString [] c = -1"
| "IndexByteString (x # xs) c =
     (if x = c then 0
      else (let r = IndexByteString xs c in if r < 0 then -1 else r + 1))"

text \<open>\<open>bytealg.LastIndexByteString\<close>: the index of the last \<open>c\<close>, or -1.\<close>

fun LastIndexByteString :: "string \<Rightarrow> char \<Rightarrow> int" where
  "LastIndexByteString [] c = -1"
| "LastIndexByteString (x # xs) c =
     (let r = LastIndexByteString xs c in
      if r \<ge> 0 then r + 1 else if x = c then 0 else -1)"

text \<open>\<open>strings.Index\<close>: the index of the first occurrence of \<open>substr\<close>, or -1.\<close>

fun Index :: "string \<Rightarrow> string \<Rightarrow> int" where
  "Index [] substr = (if substr = [] then 0 else -1)"
| "Index (c # s) substr =
     (if take (length substr) (c # s) = substr then 0
      else (let r = Index s substr in if r < 0 then -1 else r + 1))"

text \<open>
  \<open>strings.Cut\<close>:
  \<^verbatim>\<open>
  if i := Index(s, sep); i >= 0 { return s[:i], s[i+len(sep):], true }
  return s, "", false
  \<close>
\<close>

definition Cut :: "string \<Rightarrow> string \<Rightarrow> string \<times> string \<times> bool" where
  "Cut s sep =
     (let i = Index s sep in
      if i \<ge> 0 then (take (nat i) s, drop (nat i + length sep) s, True)
      else (s, [], False))"

section \<open>net.SplitHostPort\<close>

text \<open>
  The port starts after the last colon. A host in brackets must end just before that colon;
  a host without brackets must not hold a colon; no other bracket may occur.
  The first character is read only when there is a colon, so the string is not empty there.
\<close>

definition SplitHostPort :: "string \<Rightarrow> error + (string \<times> string)" where
  "SplitHostPort hostport =
     (let i = LastIndexByteString hostport CHR '':'' in
      if i < 0 then Inl (AddrError missingPort hostport)
      else
        (case
           (if (case hostport of [] \<Rightarrow> False | c # _ \<Rightarrow> c = CHR ''['') then
              (let end = IndexByteString hostport CHR '']'' in
               if end < 0 then Inl (AddrError missingBracket hostport)
               else if end + 1 = int (length hostport) then Inl (AddrError missingPort hostport)
               else if end + 1 = i then Inr (take (nat end - 1) (drop 1 hostport), 1, end + 1)
               else if hostport ! nat (end + 1) = CHR '':''
                 then Inl (AddrError tooManyColons hostport)
               else Inl (AddrError missingPort hostport))
            else
              (let host = take (nat i) hostport in
               if IndexByteString host CHR '':'' \<ge> 0 then Inl (AddrError tooManyColons hostport)
               else Inr (host, 0, 0)))
         of
           Inl e \<Rightarrow> Inl e
         | Inr (host, j, k) \<Rightarrow>
             if IndexByteString (drop (nat j) hostport) CHR ''['' \<ge> 0
               then Inl (AddrError unexpectedLBracket hostport)
             else if IndexByteString (drop (nat k) hostport) CHR '']'' \<ge> 0
               then Inl (AddrError unexpectedRBracket hostport)
             else Inr (host, drop (nat (i + 1)) hostport)))"

section \<open>net/netip: addresses\<close>

text \<open>
  \<open>netip.Addr\<close> is a 128-bit value \<open>addr\<close> (two 64-bit halves) and a tag \<open>z\<close>:
  \<open>z0\<close> for the zero Addr, \<open>z4\<close> for an IPv4 address (stored as the IPv4-mapped IPv6 value),
  \<open>z6noz\<close> for an IPv6 address without zone, and for an IPv6 address with a zone the zone.
\<close>

record uint128 =
  hi :: "64 word"
  lo :: "64 word"

datatype zone = z0 | z4 | z6noz | z6zone string

record Addr =
  addr :: uint128
  z :: zone

definition AddrZero :: Addr where
  "AddrZero = \<lparr>addr = \<lparr>hi = 0, lo = 0\<rparr>, z = z0\<rparr>"

text \<open>\<open>AddrFrom4\<close>, from the four bytes of an IPv4 address.\<close>

definition AddrFrom4 :: "byte list \<Rightarrow> Addr" where
  "AddrFrom4 b =
     \<lparr>addr = \<lparr>hi = 0,
              lo = 0xffff00000000 OR push_bit 24 (ucast (b ! 0)) OR push_bit 16 (ucast (b ! 1))
                   OR push_bit 8 (ucast (b ! 2)) OR ucast (b ! 3)\<rparr>,
      z = z4\<rparr>"

text \<open>\<open>beUint64\<close>: eight bytes as a big-endian 64-bit value.\<close>

definition beUint64 :: "byte list \<Rightarrow> 64 word" where
  "beUint64 b =
     ucast (b ! 7) OR push_bit 8 (ucast (b ! 6)) OR push_bit 16 (ucast (b ! 5))
     OR push_bit 24 (ucast (b ! 4)) OR push_bit 32 (ucast (b ! 3)) OR push_bit 40 (ucast (b ! 2))
     OR push_bit 48 (ucast (b ! 1)) OR push_bit 56 (ucast (b ! 0))"

text \<open>\<open>AddrFrom16\<close>, from the sixteen bytes of an IPv6 address.\<close>

definition AddrFrom16 :: "byte list \<Rightarrow> Addr" where
  "AddrFrom16 b = \<lparr>addr = \<lparr>hi = beUint64 (take 8 b), lo = beUint64 (drop 8 b)\<rparr>, z = z6noz\<rparr>"

definition Is4 :: "Addr \<Rightarrow> bool" where
  "Is4 ip = (z ip = z4)"

definition Is6 :: "Addr \<Rightarrow> bool" where
  "Is6 ip = (z ip \<noteq> z0 \<and> z ip \<noteq> z4)"

definition isZero :: "Addr \<Rightarrow> bool" where
  "isZero ip = (z ip = z0)"

definition hasZone :: "Addr \<Rightarrow> bool" where
  "hasZone ip = (z ip \<noteq> z0 \<and> z ip \<noteq> z4 \<and> z ip \<noteq> z6noz)"

definition BitLen :: "Addr \<Rightarrow> int" where
  "BitLen ip = (case z ip of z0 \<Rightarrow> 0 | z4 \<Rightarrow> 32 | _ \<Rightarrow> 128)"

text \<open>\<open>WithZone\<close>: no-op on a non-IPv6 address; the empty zone is no zone.\<close>

definition WithZone :: "Addr \<Rightarrow> string \<Rightarrow> Addr" where
  "WithZone ip zn =
     (if \<not> Is6 ip then ip
      else if zn = [] then ip\<lparr>z := z6noz\<rparr>
      else ip\<lparr>z := z6zone zn\<rparr>)"

definition withoutZone :: "Addr \<Rightarrow> Addr" where
  "withoutZone ip = (if \<not> Is6 ip then ip else ip\<lparr>z := z6noz\<rparr>)"

definition IPv6Unspecified :: Addr where
  "IPv6Unspecified = \<lparr>addr = \<lparr>hi = 0, lo = 0\<rparr>, z = z6noz\<rparr>"

subsection \<open>Parsing an IPv4 address\<close>

definition isDigit :: "char \<Rightarrow> bool" where
  "isDigit c = (48 \<le> (of_char c :: nat) \<and> (of_char c :: nat) \<le> 57)"

text \<open>
  The loop of \<open>parseIPv4Fields\<close> over \<open>s\<close>, at index \<open>i\<close>, with the value \<open>val\<close> and the number
  of digits \<open>digLen\<close> of the current octet, and the number \<open>pos\<close> of octets stored in \<open>flds\<close>:
  \<^verbatim>\<open>
  for i := 0; i < len(s); i++ {
    if s[i] >= '0' && s[i] <= '9' {
      if digLen == 1 && val == 0 { return leading zero }
      val = val*10 + int(s[i]) - '0'
      digLen++
      if val > 255 { return value >255 }
    } else if s[i] == '.' {
      if i == 0 || i == len(s)-1 || s[i-1] == '.' { return must have at least one digit }
      if pos == 3 { return too long }
      fields[pos] = uint8(val); pos++; val = 0; digLen = 0
    } else { return unexpected character }
  }
  \<close>
\<close>

function parseIPv4Fields_loop ::
  "string \<Rightarrow> string \<Rightarrow> nat \<Rightarrow> int \<Rightarrow> nat \<Rightarrow> nat \<Rightarrow> byte list \<Rightarrow> error + (int \<times> nat \<times> byte list)" where
  "parseIPv4Fields_loop inp s i val pos digLen flds =
     (if i < length s then
        (if isDigit (s ! i) then
           (if digLen = 1 \<and> val = 0 then Inl (parseAddrError inp OctetLeadingZero)
            else if val * 10 + int (of_char (s ! i)) - 48 > 255
              then Inl (parseAddrError inp OctetTooBig)
            else parseIPv4Fields_loop inp s (i + 1) (val * 10 + int (of_char (s ! i)) - 48)
                   pos (digLen + 1) flds)
         else if s ! i = CHR ''.'' then
           (if i = 0 \<or> i = length s - 1 \<or> s ! (i - 1) = CHR ''.''
              then Inl (parseAddrError inp OctetNoDigit)
            else if pos = 3 then Inl (parseAddrError inp IPv4TooLong)
            else parseIPv4Fields_loop inp s (i + 1) 0 (pos + 1) 0 (flds[pos := word_of_int val]))
         else Inl (parseAddrError inp UnexpectedCharacter))
      else Inr (val, pos, flds))"
  by pat_completeness auto
termination
  by (relation "measure (\<lambda>(inp, s, i, val, pos, digLen, flds). length s - i)") auto

declare parseIPv4Fields_loop.simps [simp del]

text \<open>\<open>parseIPv4Fields\<close> on the text \<open>s\<close> (a part of the input \<open>inp\<close>), into four bytes.\<close>

definition parseIPv4Fields :: "string \<Rightarrow> string \<Rightarrow> byte list \<Rightarrow> error + byte list" where
  "parseIPv4Fields inp s flds =
     (case parseIPv4Fields_loop inp s 0 0 0 0 flds of
        Inl e \<Rightarrow> Inl e
      | Inr (val, pos, flds') \<Rightarrow>
          if pos < 3 then Inl (parseAddrError inp IPv4TooShort)
          else Inr (flds'[3 := word_of_int val]))"

definition parseIPv4 :: "string \<Rightarrow> error + Addr" where
  "parseIPv4 s =
     (case parseIPv4Fields s s [0, 0, 0, 0] of
        Inl e \<Rightarrow> Inl e
      | Inr flds \<Rightarrow> Inr (AddrFrom4 flds))"

subsection \<open>Parsing an IPv6 address\<close>

text \<open>
  The inner loop of \<open>parseIPv6\<close> reads the hex digits of one group: \<open>cs\<close> is the text from
  index \<open>off\<close> on, \<open>acc\<close> the value so far.
  \<^verbatim>\<open>
  for ; off < len(s); off++ {
    c := s[off]
    if c >= '0' && c <= '9' { acc = (acc << 4) + uint32(c-'0') }
    else if c >= 'a' && c <= 'f' { acc = (acc << 4) + uint32(c-'a'+10) }
    else if c >= 'A' && c <= 'F' { acc = (acc << 4) + uint32(c-'A'+10) }
    else { break }
    if off > 3 { return each group must have 4 or less digits }
    if acc > math.MaxUint16 { return IPv6 field has value >=2^16 }
  }
  \<close>
\<close>

definition hexValue :: "char \<Rightarrow> nat option" where
  "hexValue c =
     (let n = (of_char c :: nat) in
      if 48 \<le> n \<and> n \<le> 57 then Some (n - 48)
      else if 97 \<le> n \<and> n \<le> 102 then Some (n - 97 + 10)
      else if 65 \<le> n \<and> n \<le> 70 then Some (n - 65 + 10)
      else None)"

fun hexGroup_loop :: "string \<Rightarrow> string \<Rightarrow> nat \<Rightarrow> 32 word \<Rightarrow> error + (nat \<times> 32 word)" where
  "hexGroup_loop inp [] off acc = Inr (off, acc)"
| "hexGroup_loop inp (c # cs) off acc =
     (case hexValue c of
        None \<Rightarrow> Inr (off, acc)
      | Some d \<Rightarrow>
          (let acc' = push_bit 4 acc + of_nat d in
           if off > 3 then Inl (parseAddrError inp GroupTooLong)
           else if acc' > 0xffff then Inl (parseAddrError inp GroupTooBig)
           else hexGroup_loop inp cs (off + 1) acc'))"

text \<open>
  The outer loop of \<open>parseIPv6\<close>, \<open>for i < 16\<close>: \<open>s\<close> is the text still to read, \<open>i\<close> the
  number of bytes of \<open>ip\<close> filled, \<open>ellipsis\<close> the position of \<open>::\<close> in \<open>ip\<close> or -1. The
  result is the state in which the loop is left (by \<open>break\<close> or with \<open>i = 16\<close>). A group
  followed by a dot starts an embedded IPv4 address, which \<open>parseIPv4Fields\<close> reads from the
  rest of the text into \<open>ip[i:i+4]\<close>.
\<close>

function parseIPv6_loop ::
  "string \<Rightarrow> string \<Rightarrow> nat \<Rightarrow> byte list \<Rightarrow> int \<Rightarrow> error + (string \<times> nat \<times> byte list \<times> int)" where
  "parseIPv6_loop inp s i ip ellipsis =
     (if i < 16 then
        (case hexGroup_loop inp s 0 0 of
           Inl e \<Rightarrow> Inl e
         | Inr (off, acc) \<Rightarrow>
             if off = 0 then Inl (parseAddrError inp GroupNoDigit)
             else if off < length s \<and> s ! off = CHR ''.'' then
               (if ellipsis < 0 \<and> i \<noteq> 12 then Inl (parseAddrError inp EmbeddedIPv4Misplaced)
                else if i + 4 > 16 then Inl (parseAddrError inp EmbeddedIPv4NoRoom)
                else
                  (case parseIPv4Fields inp s (take 4 (drop i ip)) of
                     Inl e \<Rightarrow> Inl e
                   | Inr flds \<Rightarrow> Inr ([], i + 4, take i ip @ flds @ drop (i + 4) ip, ellipsis)))
             else
               (let ip' = ip[i := ucast (drop_bit 8 acc), i + 1 := ucast acc];
                    s' = drop off s
                in
                  if s' = [] then Inr (s', i + 2, ip', ellipsis)
                  else if s' ! 0 \<noteq> CHR '':'' then Inl (parseAddrError inp WantColon)
                  else if length s' = 1 then Inl (parseAddrError inp ColonAtEnd)
                  else if drop 1 s' ! 0 = CHR '':'' then
                    (if ellipsis \<ge> 0 then Inl (parseAddrError inp MultipleEllipsis)
                     else if drop 2 s' = [] then Inr ([], i + 2, ip', int (i + 2))
                     else parseIPv6_loop inp (drop 2 s') (i + 2) ip' (int (i + 2)))
                  else parseIPv6_loop inp (drop 1 s') (i + 2) ip' ellipsis))
      else Inr (s, i, ip, ellipsis))"
  by pat_completeness auto
termination
  by (relation "measure (\<lambda>(inp, s, i, ip, ellipsis). 16 - i)") auto

declare parseIPv6_loop.simps [simp del]

text \<open>
  Expanding the ellipsis, \<open>for j := i - 1; j >= ellipsis; j-- { ip[j+n] = ip[j] }\<close>: the
  counter \<open>k\<close> is the number of bytes still to move, so \<open>j = e + k\<close> in the step from
  \<open>Suc k\<close> to \<open>k\<close>. Then \<open>clear(ip[ellipsis : ellipsis+n])\<close>.
\<close>

fun moveUp :: "byte list \<Rightarrow> nat \<Rightarrow> nat \<Rightarrow> nat \<Rightarrow> byte list" where
  "moveUp ip n e 0 = ip"
| "moveUp ip n e (Suc k) = moveUp (ip[e + k + n := ip ! (e + k)]) n e k"

definition clear :: "byte list \<Rightarrow> nat \<Rightarrow> nat \<Rightarrow> byte list" where
  "clear ip a b = take a ip @ replicate (b - a) 0 @ drop b ip"

text \<open>
  The end of \<open>parseIPv6\<close>, after the loop: the whole text must have been read; an address
  that is too short is filled with zeros at the ellipsis; an ellipsis must stand for at
  least one group.
  \<^verbatim>\<open>
  if len(s) != 0 { return trailing garbage }
  if i < 16 {
    if ellipsis < 0 { return address string too short }
    n := 16 - i
    for j := i - 1; j >= ellipsis; j-- { ip[j+n] = ip[j] }
    clear(ip[ellipsis : ellipsis+n])
  } else if ellipsis >= 0 { return the :: must expand to at least one field of zeros }
  return AddrFrom16(ip).WithZone(zone), nil
  \<close>
\<close>

definition parseIPv6_end :: "string \<Rightarrow> string \<Rightarrow> string \<times> nat \<times> byte list \<times> int \<Rightarrow> error + Addr" where
  "parseIPv6_end inp zn st =
     (case st of (s, i, ip, ellipsis) \<Rightarrow>
        if s \<noteq> [] then Inl (parseAddrError inp TrailingGarbage)
        else if i < 16 then
          (if ellipsis < 0 then Inl (parseAddrError inp AddressTooShort)
           else
             (let n = 16 - i;
                  e = nat ellipsis
              in Inr (WithZone (AddrFrom16 (clear (moveUp ip n e (i - e)) e (e + n))) zn)))
        else if ellipsis \<ge> 0 then Inl (parseAddrError inp EmptyEllipsis)
        else Inr (WithZone (AddrFrom16 ip) zn))"

text \<open>
  \<open>parseIPv6\<close>: the zone after the first \<open>%\<close> is split off, and must not be empty; a leading
  \<open>::\<close> is an ellipsis at position 0, and all of the address if nothing follows; then the
  loop over the groups and the end above.
\<close>

definition parseIPv6 :: "string \<Rightarrow> error + Addr" where
  "parseIPv6 inp =
     (let i = IndexByteString inp CHR ''%'';
          s = (if i \<noteq> -1 then take (nat i) inp else inp);
          zn = (if i \<noteq> -1 then drop (nat i + 1) inp else [])
      in
        if i \<noteq> -1 \<and> zn = [] then Inl (parseAddrError inp EmptyZone)
        else
          (let lead = (length s \<ge> 2 \<and> s ! 0 = CHR '':'' \<and> s ! 1 = CHR '':'') in
           if lead \<and> drop 2 s = [] then Inr (WithZone IPv6Unspecified zn)
           else
             (case parseIPv6_loop inp (if lead then drop 2 s else s) 0 (replicate 16 0)
                     (if lead then 0 else -1) of
                Inl e \<Rightarrow> Inl e
              | Inr st \<Rightarrow> parseIPv6_end inp zn st)))"

subsection \<open>ParseAddr\<close>

text \<open>
  \<open>ParseAddr\<close> looks for the first of \<open>.\<close>, \<open>:\<close> and \<open>%\<close> in the text: a dot first makes it
  an IPv4 address, a colon first an IPv6 address, a percent sign first an error, and none of
  them an error.
\<close>

fun ParseAddr_loop :: "string \<Rightarrow> string \<Rightarrow> error + Addr" where
  "ParseAddr_loop s [] = Inl (parseAddrError s UnableToParseIP)"
| "ParseAddr_loop s (c # cs) =
     (if c = CHR ''.'' then parseIPv4 s
      else if c = CHR '':'' then parseIPv6 s
      else if c = CHR ''%'' then Inl (parseAddrError s MissingIPv6Address)
      else ParseAddr_loop s cs)"

definition ParseAddr :: "string \<Rightarrow> error + Addr" where
  "ParseAddr s = ParseAddr_loop s s"

section \<open>net/netip: prefixes\<close>

text \<open>
  \<open>netip.Prefix\<close> is an address and a length, stored plus one so that the zero Prefix is
  invalid.
\<close>

record Prefix =
  ip :: Addr
  bitsPlusOne :: byte

definition IsValid :: "Prefix \<Rightarrow> bool" where
  "IsValid p = (bitsPlusOne p > 0)"

definition Bits :: "Prefix \<Rightarrow> int" where
  "Bits p = int (unat (bitsPlusOne p)) - 1"

text \<open>
  \<open>PrefixFrom\<close>:
  \<^verbatim>\<open>
  var bitsPlusOne uint8
  if !ip.isZero() && bits >= 0 && bits <= ip.BitLen() { bitsPlusOne = uint8(bits) + 1 }
  return Prefix{ip: ip.withoutZone(), bitsPlusOne: bitsPlusOne}
  \<close>
\<close>

definition PrefixFrom :: "Addr \<Rightarrow> int \<Rightarrow> Prefix" where
  "PrefixFrom a bits =
     \<lparr>ip = withoutZone a,
      bitsPlusOne = (if \<not> isZero a \<and> bits \<ge> 0 \<and> bits \<le> BitLen a then word_of_int bits + 1 else 0)\<rparr>"

text \<open>
  \<open>strconv.Atoi\<close>: an optional sign, then decimal digits, at least one; \<open>None\<close> is the
  syntax error, or the range error of a value outside of 64 bits.
\<close>

fun digits_loop :: "string \<Rightarrow> int \<Rightarrow> int option" where
  "digits_loop [] n = Some n"
| "digits_loop (ch # cs) n =
     (if isDigit ch then digits_loop cs (n * 10 + (int (of_char ch) - 48)) else None)"

definition Atoi :: "string \<Rightarrow> int option" where
  "Atoi s =
     (case s of
        [] \<Rightarrow> None
      | c # cs \<Rightarrow>
          (let body = (if c = CHR ''-'' \<or> c = CHR ''+'' then cs else s) in
           if body = [] then None
           else
             (case digits_loop body 0 of
                None \<Rightarrow> None
              | Some n \<Rightarrow>
                  (let v = (if c = CHR ''-'' then - n else n) in
                   if - (2 ^ 63) \<le> v \<and> v < 2 ^ 63 then Some v else None))))"

text \<open>
  \<open>ParsePrefix\<close>: the address before the last slash, without zone; the length after it, in
  decimal without sign or leading zero, at most 32 or 128. The address is kept as written:
  the bits beyond the length are not cleared.
\<close>

definition ParsePrefix :: "string \<Rightarrow> error + Prefix" where
  "ParsePrefix s =
     (let i = LastIndexByteString s CHR ''/'' in
      if i < 0 then Inl (parsePrefixError s NoSlash)
      else
        (case ParseAddr (take (nat i) s) of
           Inl err \<Rightarrow> Inl (parsePrefixError s (BadAddr err))
         | Inr a \<Rightarrow>
             if Is6 a \<and> z a \<noteq> z6noz then Inl (parsePrefixError s ZoneInPrefix)
             else
               (let bitsStr = drop (nat (i + 1)) s in
                if length bitsStr > 1 \<and>
                   ((of_char (bitsStr ! 0) :: nat) < 49 \<or> (of_char (bitsStr ! 0) :: nat) > 57)
                  then Inl (parsePrefixError s BadBits)
                else
                  (case Atoi bitsStr of
                     None \<Rightarrow> Inl (parsePrefixError s BadBits)
                   | Some bits \<Rightarrow>
                       (let maxBits = (if Is6 a then 128 else 32) in
                        if bits < 0 \<or> bits > maxBits
                          then Inl (parsePrefixError s BitsOutOfRange)
                        else Inr (PrefixFrom a bits))))))"

text \<open>
  \<open>mask6 n\<close>, the 128-bit mask of the \<open>n\<close> leading bits:
  \<open>uint128{^(^uint64(0) >> n), ^uint64(0) << (128 - n)}\<close>. A shift by 64 or more gives 0.
\<close>

definition mask6 :: "int \<Rightarrow> uint128" where
  "mask6 n = \<lparr>hi = NOT (drop_bit (nat n) (- 1)), lo = push_bit (nat (128 - n)) (- 1)\<rparr>"

definition xor128 :: "uint128 \<Rightarrow> uint128 \<Rightarrow> uint128" where
  "xor128 u v = \<lparr>hi = hi u XOR hi v, lo = lo u XOR lo v\<rparr>"

definition and128 :: "uint128 \<Rightarrow> uint128 \<Rightarrow> uint128" where
  "and128 u m = \<lparr>hi = hi u AND hi m, lo = lo u AND lo m\<rparr>"

definition isZero128 :: "uint128 \<Rightarrow> bool" where
  "isZero128 u = (hi u OR lo u = 0)"

text \<open>
  \<open>Prefix.Contains\<close>:
  \<^verbatim>\<open>
  if !p.IsValid() || ip.hasZone() { return false }
  if f1, f2 := p.Addr().BitLen(), ip.BitLen(); f1 == 0 || f2 == 0 || f1 != f2 { return false }
  if ip.Is4() {
    return uint32((ip.addr.lo^p.ip.addr.lo)>>((32-p.Bits())&63)) == 0
  } else {
    return ip.addr.xor(p.ip.addr).and(mask6(p.Bits())).isZero()
  }
  \<close>
\<close>

definition Contains :: "Prefix \<Rightarrow> Addr \<Rightarrow> bool" where
  "Contains p a =
     (if \<not> IsValid p \<or> hasZone a then False
      else if BitLen (ip p) = 0 \<or> BitLen a = 0 \<or> BitLen (ip p) \<noteq> BitLen a then False
      else if Is4 a then
        (ucast (drop_bit (nat ((32 - Bits p) AND 63)) (lo (addr a) XOR lo (addr (ip p)))) :: 32 word) = 0
      else isZero128 (and128 (xor128 (addr a) (addr (ip p))) (mask6 (Bits p))))"

section \<open>bufio.Scanner with the default split function ScanLines\<close>

text \<open>
  A response body is the bytes that reading it delivers, and the error that ends the reading,
  if it does not end at the end of the body. One call of \<open>Scan\<close> on the bytes not yet consumed
  gives the next token and the bytes after it, or stops:
  \<^item> a line is the bytes up to the next newline, without one trailing carriage return;
  \<^item> the last line need not end in a newline; no bytes left is the end;
  \<^item> the buffer grows to \<open>MaxScanTokenSize\<close> bytes: when it is full and holds no newline,
    \<open>Scan\<close> stops with \<open>ErrTooLong\<close> (the reader is taken to report the end of the data in a
    read of its own, after the last bytes);
  \<^item> a read error ends the data as the end of the body does; the scanner keeps it for \<open>Err\<close>.
  \<open>Stop\<close> carries what \<open>Err\<close> would return.
\<close>

definition MaxScanTokenSize :: nat where
  "MaxScanTokenSize = 64 * 1024"

definition dropCR :: "string \<Rightarrow> string" where
  "dropCR d = (if d \<noteq> [] \<and> last d = CHR 0x0D then butlast d else d)"

datatype scan = Token string string | Stop "error option"

definition Scan :: "string \<Rightarrow> error option \<Rightarrow> scan" where
  "Scan buf rerr =
     (if buf = [] then Stop rerr
      else
        (let line = takeWhile (\<lambda>c. c \<noteq> CHR 0x0A) buf in
         if length line \<ge> MaxScanTokenSize then Stop (Some ErrTooLong)
         else Token (dropCR line) (drop (length line + 1) buf)))"

section \<open>The range source: CloudflareIPRange\<close>

text \<open>
  \<open>caddy.Duration\<close> is \<open>time.Duration\<close>, a signed 64-bit count of nanoseconds. A field left
  out of the configuration is 0.
\<close>

type_synonym Duration = "64 word"

definition Second :: Duration where
  "Second = 1000000000"

definition Hour :: Duration where
  "Hour = 3600 * Second"

definition ipv4 :: string where
  "ipv4 = ''https://www.cloudflare.com/ips-v4''"

definition ipv6 :: string where
  "ipv6 = ''https://www.cloudflare.com/ips-v6''"

text \<open>
  The fields of the module that the claims are about: the two configured durations and the
  snapshot \<open>ranges\<close>. The context, the lock and the logger are not data of the model: the
  log lines written are returned, cancellation is an event of the refresh loop, and each
  operation of the model is one atomic step.
\<close>

record CloudflareIPRange =
  Interval :: Duration
  Timeout :: Duration
  ranges :: "Prefix list"

datatype log_entry =
    LogInfo string
  | LogInfoCount string nat
  | LogError string error
  | LogWarn string error
  | LogDebugCount string nat

text \<open>
  The network, as seen by one fetch cycle: what a GET of a URL under a timeout gives.
  \<open>DoError\<close> is the failure of \<open>http.DefaultClient.Do\<close> (no response); \<open>Response\<close> is a
  response, with the bytes of its body that could be read and the error that ended the
  reading, if any (a timeout or a broken connection in the middle of the body). The status
  code of the response is not part of it: the code never reads it.
\<close>

datatype response = DoError string | Response string "string option"

type_synonym network = "string \<Rightarrow> Duration \<Rightarrow> response"

text \<open>Lines 103 to 106 of \<open>fetch\<close>: the timeout of one request.\<close>

definition fetch_timeout :: "CloudflareIPRange \<Rightarrow> Duration" where
  "fetch_timeout s = (if Timeout s = 0 then 15 * Second else Timeout s)"

lemma Scan_Token_shorter: "Scan buf rerr = Token line rest \<Longrightarrow> length rest < length buf"
  by (auto simp: Scan_def Let_def split: if_splits)

text \<open>
  Lines 121 to 134 of \<open>fetch\<close>, the loop over the lines of the body:
  \<^verbatim>\<open>
  for scanner.Scan() {
    line := scanner.Text()
    if line == "" { continue }
    prefix, err := netip.ParsePrefix(line)
    if err != nil { return nil, err }
    prefixes = append(prefixes, prefix)
  }
  return prefixes, nil
  \<close>
  When \<open>Scan\<close> stops, the loop ends and the prefixes read so far are returned:
  \<open>scanner.Err()\<close> is not called.
\<close>

function fetch_loop :: "string \<Rightarrow> error option \<Rightarrow> Prefix list \<Rightarrow> error + Prefix list" where
  "fetch_loop buf rerr prefixes =
     (case Scan buf rerr of
        Stop _ \<Rightarrow> Inr prefixes
      | Token line rest \<Rightarrow>
          if line = [] then fetch_loop rest rerr prefixes
          else
            (case ParsePrefix line of
               Inl err \<Rightarrow> Inl err
             | Inr prefix \<Rightarrow> fetch_loop rest rerr (prefixes @ [prefix])))"
  by pat_completeness auto
termination
  by (relation "measure (\<lambda>(buf, rerr, prefixes). length buf)")
     (auto dest: Scan_Token_shorter)

declare fetch_loop.simps [simp del]

text \<open>
  \<open>fetch\<close>: one GET under the timeout, then the loop over the body. Building the request
  does not fail for the two URLs of the module.
\<close>

definition fetch :: "network \<Rightarrow> CloudflareIPRange \<Rightarrow> string \<Rightarrow> error + Prefix list" where
  "fetch net s api =
     (case net api (fetch_timeout s) of
        DoError e \<Rightarrow> Inl (TransportError e)
      | Response body rerr \<Rightarrow> fetch_loop body (map_option ReadError rerr) [])"

text \<open>
  \<open>getPrefixes\<close>, one fetch cycle:
  \<^verbatim>\<open>
  var full []netip.Prefix
  for _, api := range []string{ipv4, ipv6} {
    prefixes, err := s.fetch(api)
    if err != nil { return nil, err }
    full = append(full, prefixes...)
  }
  return full, nil
  \<close>
\<close>

fun getPrefixes_loop ::
  "network \<Rightarrow> CloudflareIPRange \<Rightarrow> string list \<Rightarrow> Prefix list \<Rightarrow> error + Prefix list" where
  "getPrefixes_loop net s [] full = Inr full"
| "getPrefixes_loop net s (api # apis) full =
     (case fetch net s api of
        Inl err \<Rightarrow> Inl err
      | Inr prefixes \<Rightarrow> getPrefixes_loop net s apis (full @ prefixes))"

definition getPrefixes :: "network \<Rightarrow> CloudflareIPRange \<Rightarrow> error + Prefix list" where
  "getPrefixes net s = getPrefixes_loop net s [ipv4, ipv6] []"


text \<open>
  Lines 66 to 69 of \<open>refreshLoop\<close>: the interval of the ticker. \<open>time.NewTicker\<close> panics on
  an interval that is not positive.
\<close>

datatype panic = NonPositiveTickerInterval

definition refreshLoop_ticker :: "CloudflareIPRange \<Rightarrow> panic + (CloudflareIPRange \<times> Duration)" where
  "refreshLoop_ticker s =
     (let s' = (if Interval s = 0 then s\<lparr>Interval := Hour\<rparr> else s) in
      if sint (Interval s') \<le> 0 then Inl NonPositiveTickerInterval
      else Inr (s', Interval s'))"

text \<open>
  The loop of \<open>refreshLoop\<close> selects between a tick and the end of the context. An event is
  a tick, with the network as it is during that cycle, or the cancellation. The model runs
  the loop over the events that happen, and gives the module and the log lines at the end of
  them.
\<close>

datatype event = Tick network | Done

definition refresh_tick :: "network \<Rightarrow> CloudflareIPRange \<Rightarrow> CloudflareIPRange \<times> log_entry list" where
  "refresh_tick net s =
     (case getPrefixes net s of
        Inl err \<Rightarrow> (s, [LogWarn ''could not refresh cloudflare ips'' err])
      | Inr newRanges \<Rightarrow>
          (s\<lparr>ranges := newRanges\<rparr>,
           [LogDebugCount ''cloudflare ip ranges refreshed'' (length newRanges)]))"

fun refreshLoop_select :: "CloudflareIPRange \<Rightarrow> event list \<Rightarrow> CloudflareIPRange \<times> log_entry list" where
  "refreshLoop_select s [] = (s, [])"
| "refreshLoop_select s (Done # evs) = (s, [])"
| "refreshLoop_select s (Tick net # evs) =
     (let (s', logs) = refresh_tick net s;
          (s'', logs') = refreshLoop_select s' evs
      in (s'', logs @ logs'))"

definition refreshLoop ::
  "CloudflareIPRange \<Rightarrow> event list \<Rightarrow> panic + (CloudflareIPRange \<times> log_entry list)" where
  "refreshLoop s evs =
     (case refreshLoop_ticker s of
        Inl p \<Rightarrow> Inl p
      | Inr (s', d) \<Rightarrow> Inr (refreshLoop_select s' evs))"

section \<open>The matcher: MatchDynamicRemoteIP\<close>

record Request =
  RemoteAddr :: string

text \<open>
  \<open>caddyhttp.IPRangeSource\<close> is the interface with the one method \<open>GetIPRanges\<close>; the field
  \<open>Providers\<close> of the matcher holds one or is \<open>nil\<close>.
\<close>

type_synonym IPRangeSource = "Request \<Rightarrow> Prefix list"

definition GetIPRanges :: "CloudflareIPRange \<Rightarrow> IPRangeSource" where
  "GetIPRanges s = (\<lambda>_. ranges s)"

record MatchDynamicRemoteIP =
  Providers :: "IPRangeSource option"

text \<open>
  \<open>parseIPZoneFromString\<close>:
  \<^verbatim>\<open>
  ipStr, _, err := net.SplitHostPort(address)
  if err != nil { ipStr = address }
  ipStr, _, _ = strings.Cut(ipStr, "%")
  return netip.ParseAddr(ipStr)
  \<close>
\<close>

definition parseIPZoneFromString :: "string \<Rightarrow> error + Addr" where
  "parseIPZoneFromString address =
     (let ipStr = (case SplitHostPort address of Inl err \<Rightarrow> address | Inr (host, port) \<Rightarrow> host);
          ipStr' = fst (Cut ipStr ''%'')
      in ParseAddr ipStr')"

text \<open>The loop of \<open>Match\<close> over the snapshot, which returns at the first prefix that contains.\<close>

fun Match_loop :: "Prefix list \<Rightarrow> Addr \<Rightarrow> bool" where
  "Match_loop [] remoteIP = False"
| "Match_loop (ipRange # cidrs) remoteIP =
     (if Contains ipRange remoteIP then True else Match_loop cidrs remoteIP)"

text \<open>\<open>Match\<close>: the decision, and the log lines written (by the logger set in Provision).\<close>

definition Match :: "MatchDynamicRemoteIP \<Rightarrow> Request \<Rightarrow> bool \<times> log_entry list" where
  "Match m r =
     (case parseIPZoneFromString (RemoteAddr r) of
        Inl err \<Rightarrow> (False, [LogError ''getting remote IP'' err])
      | Inr remoteIP \<Rightarrow>
          (case Providers m of
             None \<Rightarrow> (False, [])
           | Some src \<Rightarrow> (Match_loop (src r) remoteIP, [])))"

section \<open>Containment, as the specification words it\<close>

text \<open>
  The specification describes containment by the address family and by masking: an address
  is in a prefix if both are of one family and the address, with the bits beyond the length
  of the prefix cleared, is the network value of the prefix, which is the address of the
  prefix with the same bits cleared. The value of an IPv4 address is the low 32 bits of
  \<open>addr\<close>, the value of an IPv6 address all 128 bits.
\<close>

datatype family = IPv4 | IPv6

definition family_of :: "Addr \<Rightarrow> family option" where
  "family_of a = (case z a of z0 \<Rightarrow> None | z4 \<Rightarrow> Some IPv4 | _ \<Rightarrow> Some IPv6)"

definition value4 :: "Addr \<Rightarrow> 32 word" where
  "value4 a = ucast (lo (addr a))"

definition value6 :: "Addr \<Rightarrow> 128 word" where
  "value6 a = word_cat (hi (addr a)) (lo (addr a))"

definition masked :: "nat \<Rightarrow> 'a::len word \<Rightarrow> 'a word" where
  "masked n w = w AND NOT (mask (LENGTH('a) - n))"

definition contains_spec :: "Prefix \<Rightarrow> Addr \<Rightarrow> bool" where
  "contains_spec p a =
     (IsValid p \<and>
      (case family_of a of
         None \<Rightarrow> False
       | Some IPv4 \<Rightarrow>
           family_of (ip p) = Some IPv4 \<and>
           masked (nat (Bits p)) (value4 a) = masked (nat (Bits p)) (value4 (ip p))
       | Some IPv6 \<Rightarrow>
           family_of (ip p) = Some IPv6 \<and>
           masked (nat (Bits p)) (value6 a) = masked (nat (Bits p)) (value6 (ip p))))"

text \<open>
  What holds of every \<open>Addr\<close> and \<open>Prefix\<close> that the functions of the package build (their
  fields are not exported): an IPv4 address is stored as the IPv4-mapped IPv6 value, with
  \<open>0xffff\<close> above its 32 bits; the length of a prefix is at most the bit length of its
  address.
\<close>

definition Addr_inv :: "Addr \<Rightarrow> bool" where
  "Addr_inv a = (z a = z4 \<longrightarrow> drop_bit 32 (lo (addr a)) = 0xffff)"

definition Prefix_inv :: "Prefix \<Rightarrow> bool" where
  "Prefix_inv p = (Addr_inv (ip p) \<and> Bits p \<le> BitLen (ip p))"

section \<open>Parsing a body, as the specification words it\<close>

text \<open>
  The body is split at the newlines; a line is blank if nothing is left of it once a
  trailing carriage return is dropped; the other lines are parsed in their order, and the
  first one that does not parse gives its error in the place of all prefixes.
\<close>

function body_lines :: "string \<Rightarrow> string list" where
  "body_lines buf =
     (if buf = [] then []
      else
        (let line = takeWhile (\<lambda>c. c \<noteq> CHR 0x0A) buf in
         line # body_lines (drop (length line + 1) buf)))"
  by pat_completeness auto
termination
  by (relation "measure length") auto

declare body_lines.simps [simp del]

fun parse_prefix_list :: "string list \<Rightarrow> error + Prefix list" where
  "parse_prefix_list [] = Inr []"
| "parse_prefix_list (l # ls) =
     (if dropCR l = [] then parse_prefix_list ls
      else
        (case ParsePrefix (dropCR l) of
           Inl err \<Rightarrow> Inl err
         | Inr prefix \<Rightarrow>
             (case parse_prefix_list ls of
                Inl err \<Rightarrow> Inl err
              | Inr prefixes \<Rightarrow> Inr (prefix # prefixes))))"

section \<open>Facts about the library functions\<close>

subsection \<open>Strings\<close>

lemma Index_byte:
  "Index s [c] = (if c \<in> set s then int (length (takeWhile (\<lambda>x. x \<noteq> c) s)) else -1)"
  by (induction s) (auto simp: Let_def)

lemma Cut_byte: "fst (Cut s [c]) = takeWhile (\<lambda>x. x \<noteq> c) s"
proof (cases "c \<in> set s")
  case True
  then have "fst (Cut s [c]) = take (length (takeWhile (\<lambda>x. x \<noteq> c) s)) s"
    by (simp add: Cut_def Index_byte)
  then show ?thesis
    by (simp only: takeWhile_eq_take [symmetric])
next
  case False
  then have a: "fst (Cut s [c]) = s"
    by (simp add: Cut_def Index_byte)
  from False have b: "takeWhile (\<lambda>x. x \<noteq> c) s = s"
    by (induction s) auto
  show ?thesis by (simp only: a b)
qed

lemma IndexByteString_neg: "(IndexByteString s c < 0) = (c \<notin> set s)"
  by (induction s) (auto simp: Let_def)

lemma LastIndexByteString_neg: "(LastIndexByteString s c < 0) = (c \<notin> set s)"
  by (induction s) (auto simp: Let_def)

lemma LastIndexByteString_last:
  "LastIndexByteString s c = i \<Longrightarrow> 0 \<le> i \<Longrightarrow>
     nat i < length s \<and> s ! nat i = c \<and> c \<notin> set (drop (Suc (nat i)) s)"
proof (induction s arbitrary: i)
  case Nil
  then show ?case by simp
next
  case (Cons x xs)
  show ?case
  proof (cases "LastIndexByteString xs c \<ge> 0")
    case True
    with Cons.prems have i: "i = LastIndexByteString xs c + 1" by (simp add: Let_def)
    from Cons.IH [OF refl True]
    have "nat (LastIndexByteString xs c) < length xs
        \<and> xs ! nat (LastIndexByteString xs c) = c
        \<and> c \<notin> set (drop (Suc (nat (LastIndexByteString xs c))) xs)" .
    moreover from i True have "nat i = Suc (nat (LastIndexByteString xs c))" by simp
    ultimately show ?thesis by simp
  next
    case False
    then have n: "c \<notin> set xs" by (simp add: LastIndexByteString_neg [symmetric])
    from False Cons.prems have "x = c \<and> i = 0" by (auto simp: Let_def split: if_splits)
    with n show ?thesis by simp
  qed
qed

lemma IndexByteString_notin: "c \<notin> set s \<Longrightarrow> IndexByteString s c = - 1"
  by (induction s) auto

lemma LastIndexByteString_replicate:
  "c \<noteq> x \<Longrightarrow> LastIndexByteString (replicate n x) c = - 1"
  by (induction n) simp_all

subsection \<open>Words\<close>

lemma xor_and_zero: "((x XOR y) AND m = 0) = (x AND m = y AND m)" for x y m :: "'a::len word"
  by (auto simp: bit_eq_iff bit_simps)

lemma cat_and: "(word_cat a b :: 128 word) AND word_cat c d = word_cat (a AND c) (b AND d)"
  for a b c d :: "64 word"
  by (rule bit_word_eqI) (auto simp: bit_simps)

lemma cat_lo: "(ucast (word_cat a b :: 128 word) :: 64 word) = b" for a b :: "64 word"
  by (rule bit_word_eqI) (auto simp: bit_simps)

lemma cat_hi: "(ucast (drop_bit 64 (word_cat a b :: 128 word)) :: 64 word) = a" for a b :: "64 word"
  by (rule bit_word_eqI) (auto simp: bit_simps)

lemma cat_inj: "((word_cat a b :: 128 word) = word_cat c d) = (a = c \<and> b = d)"
  for a b c d :: "64 word"
proof
  assume e: "(word_cat a b :: 128 word) = word_cat c d"
  have "a = ucast (drop_bit 64 (word_cat a b :: 128 word))" by (simp only: cat_hi)
  also have "\<dots> = c" by (simp only: e cat_hi)
  finally have 1: "a = c" .
  have "b = ucast (word_cat a b :: 128 word)" by (simp only: cat_lo)
  also have "\<dots> = d" by (simp only: e cat_lo)
  finally have 2: "b = d" .
  from 1 2 show "a = c \<and> b = d" by simp
qed simp

lemma mask6_cat: "n \<le> 128 \<Longrightarrow>
   (word_cat (NOT (drop_bit n (- 1 :: 64 word))) (push_bit (128 - n) (- 1 :: 64 word)) :: 128 word)
     = NOT (mask (128 - n))"
  by (rule bit_word_eqI) (auto simp: bit_simps)

lemma Contains6_masked:
  fixes ha la hp lp :: "64 word"
  assumes n: "0 \<le> n" "n \<le> 128"
  shows "isZero128 (and128 (xor128 \<lparr>hi = ha, lo = la\<rparr> \<lparr>hi = hp, lo = lp\<rparr>) (mask6 n))
       = (masked (nat n) (word_cat ha la :: 128 word) = masked (nat n) (word_cat hp lp))"
proof -
  let ?mh = "NOT (drop_bit (nat n) (- 1 :: 64 word))"
  let ?ml = "push_bit (128 - nat n) (- 1 :: 64 word)"
  from n have m: "(word_cat ?mh ?ml :: 128 word) = NOT (mask (128 - nat n))"
    by (intro mask6_cat) simp
  from n have nn: "nat (128 - n) = 128 - nat n" by simp
  have "isZero128 (and128 (xor128 \<lparr>hi = ha, lo = la\<rparr> \<lparr>hi = hp, lo = lp\<rparr>) (mask6 n))
      = ((ha XOR hp) AND ?mh = 0 \<and> (la XOR lp) AND ?ml = 0)"
    by (simp only: isZero128_def and128_def xor128_def mask6_def nn uint128.select_convs
          or_eq_0_iff)
  also have "\<dots> = (ha AND ?mh = hp AND ?mh \<and> la AND ?ml = lp AND ?ml)"
    by (simp only: xor_and_zero)
  also have "\<dots> = ((word_cat (ha AND ?mh) (la AND ?ml) :: 128 word) = word_cat (hp AND ?mh) (lp AND ?ml))"
    by (simp only: cat_inj)
  also have "\<dots> = ((word_cat ha la :: 128 word) AND word_cat ?mh ?ml = word_cat hp lp AND word_cat ?mh ?ml)"
    by (simp only: cat_and)
  also have "\<dots> = (masked (nat n) (word_cat ha la :: 128 word) = masked (nat n) (word_cat hp lp))"
    by (simp only: m masked_def) simp
  finally show ?thesis .
qed

lemma Contains4_masked:
  fixes la lp :: "64 word"
  assumes k: "k \<le> 32" and a: "drop_bit 32 la = 0xffff" and p: "drop_bit 32 lp = 0xffff"
  shows "((ucast (drop_bit k (la XOR lp)) :: 32 word) = 0)
       = (masked (32 - k) (ucast la :: 32 word) = masked (32 - k) (ucast lp))"
proof -
  have up: "bit la (i + 32) = bit lp (i + 32)" for i
  proof -
    have "bit la (i + 32) = bit (drop_bit 32 la) i" by (simp add: bit_simps add.commute)
    also have "\<dots> = bit (drop_bit 32 lp) i" by (simp only: a p)
    also have "\<dots> = bit lp (i + 32)" by (simp add: bit_simps add.commute)
    finally show ?thesis .
  qed
  have L: "((ucast (drop_bit k (la XOR lp)) :: 32 word) = 0) = (\<forall>i<32. bit la (i + k) = bit lp (i + k))"
    by (auto simp: bit_eq_iff bit_simps add.commute)
  from k have kk: "32 - (32 - k) = k" by simp
  have R: "(masked (32 - k) (ucast la :: 32 word) = masked (32 - k) (ucast lp))
        = (\<forall>i<32. k \<le> i \<longrightarrow> bit la i = bit lp i)"
    unfolding masked_def by (auto simp: bit_eq_iff bit_simps kk)
  have "(\<forall>i<32. bit la (i + k) = bit lp (i + k)) = (\<forall>i<32. k \<le> i \<longrightarrow> bit la i = bit lp i)"
  proof (rule iffI)
    assume h: "\<forall>i<32. bit la (i + k) = bit lp (i + k)"
    show "\<forall>i<32. k \<le> i \<longrightarrow> bit la i = bit lp i"
    proof (rule allI, rule impI, rule impI)
      fix i :: nat
      assume i: "i < 32" and ki: "k \<le> i"
      from i ki have "i - k < 32" by simp
      with h have "bit la (i - k + k) = bit lp (i - k + k)" by blast
      with ki show "bit la i = bit lp i" by simp
    qed
  next
    assume h: "\<forall>i<32. k \<le> i \<longrightarrow> bit la i = bit lp i"
    show "\<forall>i<32. bit la (i + k) = bit lp (i + k)"
    proof (rule allI, rule impI)
      fix i :: nat
      assume i: "i < 32"
      show "bit la (i + k) = bit lp (i + k)"
      proof (cases "i + k < 32")
        case True
        with h show ?thesis by simp
      next
        case False
        then have "i + k = (i + k - 32) + 32" by simp
        then show ?thesis using up [of "i + k - 32"] by simp
      qed
    qed
  qed
  with L R show ?thesis by simp
qed

lemma and_63_small: "0 \<le> k \<Longrightarrow> k \<le> 32 \<Longrightarrow> (k::int) AND 63 = k"
proof -
  assume a: "0 \<le> k" "k \<le> 32"
  have "k AND 63 = k AND mask 6" by (simp add: mask_eq_exp_minus_1)
  also have "\<dots> = k mod 2 ^ 6" by (simp only: and_mask_mod_2p take_bit_eq_mod flip: take_bit_eq_mask)
  also from a have "\<dots> = k" by simp
  finally show ?thesis .
qed

subsection \<open>Addresses and prefixes\<close>

lemma Contains_cross_family: "family_of a \<noteq> family_of (ip p) \<Longrightarrow> \<not> Contains p a"
  by (auto simp: Contains_def family_of_def BitLen_def split: zone.splits)

lemma Contains_eq_spec:
  assumes a: "Addr_inv a" and nz: "\<not> hasZone a" and p: "Prefix_inv p"
  shows "Contains p a = contains_spec p a"
proof (cases "IsValid p")
  case False
  then show ?thesis by (simp add: Contains_def contains_spec_def)
next
  case True
  then have "0 < unat (bitsPlusOne p)"
    by (simp add: IsValid_def word_greater_zero_iff unat_gt_0)
  then have b0: "0 \<le> Bits p"
    unfolding Bits_def by linarith
  show ?thesis
  proof (cases "family_of a = family_of (ip p) \<and> family_of a \<noteq> None")
    case False
    then have "\<not> Contains p a"
      by (auto simp: Contains_def family_of_def BitLen_def split: zone.splits)
    moreover from False have "\<not> contains_spec p a"
      by (auto simp: contains_spec_def split: option.splits family.splits)
    ultimately show ?thesis by simp
  next
    case fam: True
    show ?thesis
    proof (cases "z a = z4")
      case z4a: True
      with fam have z4p: "z (ip p) = z4"
        by (auto simp: family_of_def split: zone.splits)
      from z4p p have b32: "Bits p \<le> 32" and pl: "drop_bit 32 (lo (addr (ip p))) = 0xffff"
        by (simp_all add: Prefix_inv_def Addr_inv_def BitLen_def)
      from z4a a have al: "drop_bit 32 (lo (addr a)) = 0xffff"
        by (simp add: Addr_inv_def)
      from b0 b32 have k: "(32 - Bits p) AND 63 = 32 - Bits p"
        by (intro and_63_small) simp_all
      from b0 b32 have k2: "nat (32 - Bits p) \<le> 32" and k3: "32 - nat (32 - Bits p) = nat (Bits p)"
        by simp_all
      have "Contains p a
          = ((ucast (drop_bit (nat (32 - Bits p)) (lo (addr a) XOR lo (addr (ip p)))) :: 32 word) = 0)"
        using True z4a z4p by (simp add: Contains_def hasZone_def BitLen_def Is4_def k)
      also have "\<dots> = (masked (nat (Bits p)) (value4 a) = masked (nat (Bits p)) (value4 (ip p)))"
        using Contains4_masked [OF k2 al pl] by (simp only: k3 value4_def)
      also have "\<dots> = contains_spec p a"
        using True z4a z4p by (simp add: contains_spec_def family_of_def)
      finally show ?thesis .
    next
      case nz4a: False
      with fam nz have z6a: "z a = z6noz"
        by (auto simp: family_of_def hasZone_def split: zone.splits)
      from fam nz4a have z6p: "z (ip p) \<noteq> z0" "z (ip p) \<noteq> z4"
        by (auto simp: family_of_def split: zone.splits)
      then have bl: "BitLen (ip p) = 128" and fp: "family_of (ip p) = Some IPv6"
        by (auto simp: BitLen_def family_of_def split: zone.splits)
      with p have b128: "Bits p \<le> 128"
        by (simp add: Prefix_inv_def)
      from z6a have bla: "BitLen a = 128"
        by (simp add: BitLen_def)
      have ua: "addr a = \<lparr>hi = hi (addr a), lo = lo (addr a)\<rparr>"
        and up: "addr (ip p) = \<lparr>hi = hi (addr (ip p)), lo = lo (addr (ip p))\<rparr>"
        by simp_all
      have "Contains p a
          = isZero128 (and128 (xor128 (addr a) (addr (ip p))) (mask6 (Bits p)))"
        using True z6a bla by (simp add: Contains_def hasZone_def Is4_def bl)
      also have "\<dots> = (masked (nat (Bits p)) (value6 a) = masked (nat (Bits p)) (value6 (ip p)))"
        by (subst ua, subst up) (simp only: Contains6_masked [OF b0 b128] value6_def)
      also have "\<dots> = contains_spec p a"
        using True z6a fp by (simp add: contains_spec_def family_of_def)
      finally show ?thesis .
    qed
  qed
qed

lemma drop_bit_32_byte:
  "k \<le> 24 \<Longrightarrow> drop_bit 32 (push_bit k (ucast (b :: byte)) :: 64 word) = 0"
  by (rule bit_word_eqI) (auto simp: bit_simps dest: bit_imp_le_length)

lemma drop_bit_32_byte0: "drop_bit 32 (ucast (b :: byte) :: 64 word) = 0"
  by (rule bit_word_eqI) (auto simp: bit_simps dest: bit_imp_le_length)

lemma AddrFrom4_inv: "Addr_inv (AddrFrom4 b)"
proof -
  have m: "drop_bit 32 (0xffff00000000 :: 64 word) = 0xffff" by simp
  show ?thesis
    by (simp only: Addr_inv_def AddrFrom4_def Addr.select_convs uint128.select_convs
          drop_bit_or m drop_bit_32_byte drop_bit_32_byte0)
       simp
qed

lemma withoutZone_inv: "Addr_inv a \<Longrightarrow> Addr_inv (withoutZone a)"
  by (auto simp: Addr_inv_def withoutZone_def Is6_def)

lemma BitLen_withoutZone: "BitLen (withoutZone a) = BitLen a"
  by (auto simp: BitLen_def withoutZone_def Is6_def split: zone.splits)

lemma BitLen_range: "0 \<le> BitLen a \<and> BitLen a \<le> 128"
  by (simp add: BitLen_def split: zone.splits)

lemma unat_bitsPlusOne:
  "0 \<le> bits \<Longrightarrow> bits \<le> 128 \<Longrightarrow> int (unat (word_of_int bits + 1 :: byte)) = bits + 1"
proof -
  assume a: "0 \<le> bits" "bits \<le> 128"
  have "uint (word_of_int bits + 1 :: byte) = (bits + 1) mod 256"
    by (simp add: uint_word_ariths uint_word_of_int mod_simps)
  also from a have "\<dots> = bits + 1" by simp
  finally show ?thesis by simp
qed

lemma PrefixFrom_inv: "Addr_inv a \<Longrightarrow> Prefix_inv (PrefixFrom a bits)"
proof -
  assume a: "Addr_inv a"
  show ?thesis
  proof (cases "\<not> isZero a \<and> bits \<ge> 0 \<and> bits \<le> BitLen a")
    case True
    with BitLen_range [of a] have "int (unat (word_of_int bits + 1 :: byte)) = bits + 1"
      by (intro unat_bitsPlusOne) simp_all
    with True a show ?thesis
      by (simp add: Prefix_inv_def PrefixFrom_def withoutZone_inv BitLen_withoutZone Bits_def)
  next
    case False
    then have "PrefixFrom a bits = \<lparr>ip = withoutZone a, bitsPlusOne = 0\<rparr>"
      by (simp only: PrefixFrom_def if_False)
    with a BitLen_range [of a] show ?thesis
      by (simp add: Prefix_inv_def withoutZone_inv BitLen_withoutZone Bits_def)
  qed
qed

lemma ParsePrefix_PrefixFrom:
  "ParsePrefix s = Inr p \<Longrightarrow> \<exists>a bits i. ParseAddr (take i s) = Inr a \<and> p = PrefixFrom a bits"
  by (auto simp: ParsePrefix_def Let_def split: if_splits sum.splits option.splits)

lemma parseIPv4_z4: "parseIPv4 s = Inr a \<Longrightarrow> \<exists>b. a = AddrFrom4 b"
  by (auto simp: parseIPv4_def split: sum.splits)

lemma WithZone_z: "z x = z6noz \<Longrightarrow> z (WithZone x zn) \<noteq> z4 \<and> z (WithZone x zn) \<noteq> z0
   \<and> (zn = [] \<longrightarrow> z (WithZone x zn) = z6noz)"
  by (simp add: WithZone_def Is6_def)

lemma WithZone_z6noz:
  "z x = z6noz \<Longrightarrow> z (WithZone x zn) = (if zn = [] then z6noz else z6zone zn)"
  by (simp add: WithZone_def Is6_def)

lemma parseIPv6_end_z:
  "parseIPv6_end inp zn st = Inr a \<Longrightarrow> z a = (if zn = [] then z6noz else z6zone zn)"
  unfolding parseIPv6_end_def Let_def
  by (auto simp: WithZone_z6noz AddrFrom16_def split: prod.splits if_splits)

lemma parseIPv6_z:
  "parseIPv6 s = Inr a \<Longrightarrow> z a \<noteq> z4 \<and> z a \<noteq> z0 \<and> (CHR ''%'' \<notin> set s \<longrightarrow> z a = z6noz)"
proof -
  assume h: "parseIPv6 s = Inr a"
  define zn where "zn = (if IndexByteString s CHR ''%'' \<noteq> - 1
                         then drop (nat (IndexByteString s CHR ''%'') + 1) s else [])"
  from h have "a = WithZone IPv6Unspecified zn \<or> (\<exists>st. parseIPv6_end s zn st = Inr a)"
    unfolding parseIPv6_def Let_def zn_def [symmetric]
    by (auto split: if_splits sum.splits simp del: split_paired_Ex)
  then have "z a = (if zn = [] then z6noz else z6zone zn)"
    by (auto simp: WithZone_z6noz IPv6Unspecified_def dest: parseIPv6_end_z)
  moreover have "CHR ''%'' \<notin> set s \<Longrightarrow> zn = []"
    by (simp add: zn_def IndexByteString_notin)
  ultimately show ?thesis by auto
qed

lemma ParseAddr_loop_cases:
  "ParseAddr_loop s cs = Inr a \<Longrightarrow> parseIPv4 s = Inr a \<or> parseIPv6 s = Inr a"
  by (induction cs) (auto split: if_splits)

lemma ParseAddr_inv: "ParseAddr s = Inr a \<Longrightarrow> Addr_inv a"
proof -
  assume "ParseAddr s = Inr a"
  then consider "parseIPv4 s = Inr a" | "parseIPv6 s = Inr a"
    unfolding ParseAddr_def by (auto dest: ParseAddr_loop_cases)
  then show ?thesis
  proof cases
    case 1
    then show ?thesis by (auto dest!: parseIPv4_z4 simp: AddrFrom4_inv)
  next
    case 2
    then have "z a \<noteq> z4" by (auto dest: parseIPv6_z)
    then show ?thesis by (simp add: Addr_inv_def)
  qed
qed

lemma ParseAddr_no_zone: "CHR ''%'' \<notin> set s \<Longrightarrow> ParseAddr s = Inr a \<Longrightarrow> \<not> hasZone a"
  unfolding ParseAddr_def
  by (drule ParseAddr_loop_cases)
     (auto dest!: parseIPv4_z4 parseIPv6_z simp: hasZone_def AddrFrom4_def)

lemma ParsePrefix_inv: "ParsePrefix s = Inr p \<Longrightarrow> Prefix_inv p"
  by (drule ParsePrefix_PrefixFrom) (auto intro: PrefixFrom_inv ParseAddr_inv)

lemma family_of_AddrFrom4: "family_of (AddrFrom4 b) = Some IPv4"
  by (simp add: family_of_def AddrFrom4_def)

lemma family_of_PrefixFrom16: "family_of (ip (PrefixFrom (AddrFrom16 b) n)) = Some IPv6"
  by (simp add: family_of_def AddrFrom16_def PrefixFrom_def withoutZone_def)

subsection \<open>The scanner and the loop over the body\<close>

lemma Scan_line:
  "CHR 0x0A \<notin> set line \<Longrightarrow> length line < MaxScanTokenSize \<Longrightarrow>
     Scan (line @ CHR 0x0A # rest) rerr = Token (dropCR line) rest"
proof -
  assume a: "CHR 0x0A \<notin> set line" and b: "length line < MaxScanTokenSize"
  from a have t: "takeWhile (\<lambda>c. c \<noteq> CHR 0x0A) (line @ CHR 0x0A # rest) = line"
    by (auto simp: takeWhile_tail)
  show ?thesis
    unfolding Scan_def Let_def t using b by simp
qed

lemma Scan_too_long:
  "CHR 0x0A \<notin> set line \<Longrightarrow> length line \<ge> MaxScanTokenSize \<Longrightarrow>
     Scan (line @ CHR 0x0A # rest) rerr = Stop (Some ErrTooLong)"
proof -
  assume a: "CHR 0x0A \<notin> set line" and b: "length line \<ge> MaxScanTokenSize"
  from a have t: "takeWhile (\<lambda>c. c \<noteq> CHR 0x0A) (line @ CHR 0x0A # rest) = line"
    by (auto simp: takeWhile_tail)
  show ?thesis
    unfolding Scan_def Let_def t using b by simp
qed

lemma Scan_end: "Scan [] rerr = Stop rerr"
  by (simp add: Scan_def)

lemma fetch_loop_end: "fetch_loop [] rerr prefixes = Inr prefixes"
  by (subst fetch_loop.simps) (simp add: Scan_end)

lemma fetch_loop_too_long:
  "CHR 0x0A \<notin> set line \<Longrightarrow> length line \<ge> MaxScanTokenSize \<Longrightarrow>
     fetch_loop (line @ CHR 0x0A # rest) rerr prefixes = Inr prefixes"
  by (subst fetch_loop.simps) (simp add: Scan_too_long)

lemma ParsePrefix_no_slash:
  "ParsePrefix (replicate n (CHR ''x'')) = Inl (parsePrefixError (replicate n (CHR ''x'')) NoSlash)"
  by (simp add: ParsePrefix_def LastIndexByteString_replicate)

subsection \<open>The peer address\<close>

lemma parse_peer_host:
  "SplitHostPort address = Inr (host, port) \<Longrightarrow>
     parseIPZoneFromString address = ParseAddr (takeWhile (\<lambda>c. c \<noteq> CHR ''%'') host)"
  by (simp add: parseIPZoneFromString_def Cut_byte)

lemma parse_peer_no_port:
  "SplitHostPort address = Inl err \<Longrightarrow>
     parseIPZoneFromString address = ParseAddr (takeWhile (\<lambda>c. c \<noteq> CHR ''%'') address)"
  by (simp add: parseIPZoneFromString_def Cut_byte)

lemma SplitHostPort_no_colon:
  "CHR '':'' \<notin> set s \<Longrightarrow> SplitHostPort s = Inl (AddrError missingPort s)"
  by (simp add: SplitHostPort_def LastIndexByteString_neg)

lemma SplitHostPort_unbracketed:
  assumes nb: "take 1 h \<noteq> ''[''"
    and ok: "SplitHostPort (h @ '':'' @ p) = Inr (host, port)"
  shows "host = h \<and> port = p \<and> CHR '':'' \<notin> set h"
proof -
  let ?hp = "h @ '':'' @ p"
  define i where "i = LastIndexByteString ?hp CHR '':''"
  have "CHR '':'' \<in> set ?hp" by simp
  then have i0: "0 \<le> i"
    unfolding i_def using LastIndexByteString_neg [of ?hp "CHR '':''"] by linarith
  from nb have first: "\<not> (case ?hp of [] \<Rightarrow> False | c # _ \<Rightarrow> c = CHR ''['')"
    by (cases h) simp_all
  from ok i0 first have host: "host = take (nat i) ?hp"
    and port: "port = drop (nat (i + 1)) ?hp"
    and nc: "\<not> IndexByteString (take (nat i) ?hp) CHR '':'' \<ge> 0"
    unfolding SplitHostPort_def i_def [symmetric] Let_def
    by (auto split: if_splits)
  from nc have nc': "CHR '':'' \<notin> set (take (nat i) ?hp)"
    using IndexByteString_neg [of "take (nat i) ?hp" "CHR '':''"] by linarith
  from LastIndexByteString_last [OF i_def [symmetric] i0]
  have il: "nat i < length ?hp" and nd: "CHR '':'' \<notin> set (drop (Suc (nat i)) ?hp)"
    by blast+
  have at: "?hp ! length h = CHR '':''" by (simp add: nth_append)
  have "\<not> length h < nat i"
  proof
    assume l: "length h < nat i"
    with il have ll: "length h < length (take (nat i) ?hp)"
      by simp
    then have "take (nat i) ?hp ! length h \<in> set (take (nat i) ?hp)"
      by (rule nth_mem)
    moreover from l have "take (nat i) ?hp ! length h = ?hp ! length h"
      by (rule nth_take)
    ultimately have "CHR '':'' \<in> set (take (nat i) ?hp)"
      by (simp only: at)
    with nc' show False by blast
  qed
  moreover have "\<not> nat i < length h"
  proof
    assume l: "nat i < length h"
    then have ll: "length h - Suc (nat i) < length (drop (Suc (nat i)) ?hp)"
      by simp
    then have "drop (Suc (nat i)) ?hp ! (length h - Suc (nat i)) \<in> set (drop (Suc (nat i)) ?hp)"
      by (rule nth_mem)
    moreover have "drop (Suc (nat i)) ?hp ! (length h - Suc (nat i))
        = ?hp ! (Suc (nat i) + (length h - Suc (nat i)))"
      using l by (intro nth_drop) simp
    moreover from l have "Suc (nat i) + (length h - Suc (nat i)) = length h"
      by simp
    ultimately have "CHR '':'' \<in> set (drop (Suc (nat i)) ?hp)"
      by (simp only: at)
    with nd show False by blast
  qed
  ultimately have e: "nat i = length h" by simp
  with i0 have e': "nat (i + 1) = Suc (length h)" by simp
  from host e have "host = h" by simp
  moreover from port e' have "port = p" by simp
  moreover from nc' e have "CHR '':'' \<notin> set h" by simp
  ultimately show ?thesis by simp
qed

lemma parse_peer_unbracketed:
  assumes nb: "take 1 h \<noteq> ''[''"
    and ok: "SplitHostPort (h @ '':'' @ p) = Inr (host, port)"
  shows "parseIPZoneFromString (h @ '':'' @ p) = parseIPZoneFromString h"
proof -
  from SplitHostPort_unbracketed [OF nb ok]
  have h: "host = h" and nc: "CHR '':'' \<notin> set h" by simp_all
  from nc have "SplitHostPort h = Inl (AddrError missingPort h)"
    by (rule SplitHostPort_no_colon)
  then have "parseIPZoneFromString h = ParseAddr (takeWhile (\<lambda>c. c \<noteq> CHR ''%'') h)"
    by (rule parse_peer_no_port)
  moreover from ok h
  have "parseIPZoneFromString (h @ '':'' @ p) = ParseAddr (takeWhile (\<lambda>c. c \<noteq> CHR ''%'') h)"
    by (simp only: parse_peer_host)
  ultimately show ?thesis by simp
qed

lemma parse_peer_inv:
  "parseIPZoneFromString raw = Inr a \<Longrightarrow> Addr_inv a \<and> \<not> hasZone a"
proof -
  assume h: "parseIPZoneFromString raw = Inr a"
  then obtain t where t: "ParseAddr (takeWhile (\<lambda>c. c \<noteq> CHR ''%'') t) = Inr a"
    by (auto simp: parseIPZoneFromString_def Cut_byte)
  have "CHR ''%'' \<notin> set (takeWhile (\<lambda>c. c \<noteq> CHR ''%'') t)"
    by (auto dest: set_takeWhileD)
  with t show ?thesis
    by (auto intro: ParseAddr_inv dest: ParseAddr_no_zone)
qed

section \<open>The decision of the matcher\<close>

lemma Match_loop_iff: "Match_loop cidrs a = (\<exists>p \<in> set cidrs. Contains p a)"
  by (induction cidrs) auto

lemma ParsePrefix_198_51_100_0_24:
  "ParsePrefix ''198.51.100.0/24'' = Inr (PrefixFrom (AddrFrom4 [198, 51, 100, 0]) 24)"
  by code_simp

lemma ParseAddr_198_51_100_42: "ParseAddr ''198.51.100.42'' = Inr (AddrFrom4 [198, 51, 100, 42])"
  by code_simp

lemma ParseAddr_198_51_101_1: "ParseAddr ''198.51.101.1'' = Inr (AddrFrom4 [198, 51, 101, 1])"
  by code_simp

lemma Contains_198_51_100_42:
  "Contains (PrefixFrom (AddrFrom4 [198, 51, 100, 0]) 24) (AddrFrom4 [198, 51, 100, 42])"
  by code_simp

lemma not_Contains_198_51_101_1:
  "\<not> Contains (PrefixFrom (AddrFrom4 [198, 51, 100, 0]) 24) (AddrFrom4 [198, 51, 101, 1])"
  by code_simp

lemma parse_peer_198_51_100_42:
  "parseIPZoneFromString ''198.51.100.42:50000'' = Inr (AddrFrom4 [198, 51, 100, 42])"
  by code_simp

lemma parse_peer_198_51_101_1:
  "parseIPZoneFromString ''198.51.101.1:50000'' = Inr (AddrFrom4 [198, 51, 101, 1])"
  by code_simp

lemma parse_peer_not_an_ip:
  "parseIPZoneFromString ''not-an-ip'' = Inl (parseAddrError ''not-an-ip'' UnableToParseIP)"
  by code_simp

text \<open>
  C1. With a source configured and a peer address that parses to \<open>a\<close>, \<open>Match\<close> is true
  exactly if some prefix of the snapshot that the source returns contains \<open>a\<close>. With the
  snapshot of the one prefix that \<open>198.51.100.0/24\<close> parses to, \<open>Match\<close> is true for a peer
  address that parses to what \<open>198.51.100.42\<close> parses to, and false for \<open>198.51.101.1\<close>.
\<close>

theorem C1_Match_disjunction:
  "(parseIPZoneFromString (RemoteAddr r) = Inr a \<and> Providers m = Some src \<longrightarrow>
      fst (Match m r) = (\<exists>p \<in> set (src r). Contains p a))
   \<and> (Providers m = Some src \<and> ParsePrefix ''198.51.100.0/24'' = Inr p \<and> src r = [p] \<and>
        parseIPZoneFromString (RemoteAddr r) = ParseAddr ''198.51.100.42'' \<longrightarrow>
      fst (Match m r) = True)
   \<and> (Providers m = Some src \<and> ParsePrefix ''198.51.100.0/24'' = Inr p \<and> src r = [p] \<and>
        parseIPZoneFromString (RemoteAddr r) = ParseAddr ''198.51.101.1'' \<longrightarrow>
      fst (Match m r) = False)"
proof (intro conjI impI)
  assume "parseIPZoneFromString (RemoteAddr r) = Inr a \<and> Providers m = Some src"
  then show "fst (Match m r) = (\<exists>p \<in> set (src r). Contains p a)"
    by (simp add: Match_def Match_loop_iff)
next
  assume h: "Providers m = Some src \<and> ParsePrefix ''198.51.100.0/24'' = Inr p \<and> src r = [p] \<and>
        parseIPZoneFromString (RemoteAddr r) = ParseAddr ''198.51.100.42''"
  then have "p = PrefixFrom (AddrFrom4 [198, 51, 100, 0]) 24"
    by (simp add: ParsePrefix_198_51_100_0_24)
  with h show "fst (Match m r) = True"
    by (simp add: Match_def ParseAddr_198_51_100_42 Contains_198_51_100_42)
next
  assume h: "Providers m = Some src \<and> ParsePrefix ''198.51.100.0/24'' = Inr p \<and> src r = [p] \<and>
        parseIPZoneFromString (RemoteAddr r) = ParseAddr ''198.51.101.1''"
  then have "p = PrefixFrom (AddrFrom4 [198, 51, 100, 0]) 24"
    by (simp add: ParsePrefix_198_51_100_0_24)
  with h show "fst (Match m r) = False"
    by (simp add: Match_def ParseAddr_198_51_101_1 not_Contains_198_51_101_1)
qed

theorem C1_Match_disjunction_witness:
  "Providers \<lparr>Providers = Some (GetIPRanges
       \<lparr>Interval = 0, Timeout = 0, ranges = [PrefixFrom (AddrFrom4 [198, 51, 100, 0]) 24]\<rparr>)\<rparr>
     = Some (GetIPRanges
       \<lparr>Interval = 0, Timeout = 0, ranges = [PrefixFrom (AddrFrom4 [198, 51, 100, 0]) 24]\<rparr>)
   \<and> ParsePrefix ''198.51.100.0/24'' = Inr (PrefixFrom (AddrFrom4 [198, 51, 100, 0]) 24)
   \<and> parseIPZoneFromString (RemoteAddr \<lparr>RemoteAddr = ''198.51.100.42:50000''\<rparr>)
       = ParseAddr ''198.51.100.42''
   \<and> parseIPZoneFromString (RemoteAddr \<lparr>RemoteAddr = ''198.51.101.1:50000''\<rparr>)
       = ParseAddr ''198.51.101.1''
   \<and> fst (Match \<lparr>Providers = Some (GetIPRanges
       \<lparr>Interval = 0, Timeout = 0, ranges = [PrefixFrom (AddrFrom4 [198, 51, 100, 0]) 24]\<rparr>)\<rparr>
       \<lparr>RemoteAddr = ''198.51.100.42:50000''\<rparr>) = True
   \<and> fst (Match \<lparr>Providers = Some (GetIPRanges
       \<lparr>Interval = 0, Timeout = 0, ranges = [PrefixFrom (AddrFrom4 [198, 51, 100, 0]) 24]\<rparr>)\<rparr>
       \<lparr>RemoteAddr = ''198.51.101.1:50000''\<rparr>) = False
   \<and> fst (Match \<lparr>Providers = Some (GetIPRanges
       \<lparr>Interval = 0, Timeout = 0, ranges = [PrefixFrom (AddrFrom4 [198, 51, 100, 0]) 24]\<rparr>)\<rparr>
       \<lparr>RemoteAddr = ''198.51.100.42:50000''\<rparr>)
     = (\<exists>p \<in> set [PrefixFrom (AddrFrom4 [198, 51, 100, 0]) 24].
          Contains p (AddrFrom4 [198, 51, 100, 42]))"
proof -
  let ?s = "\<lparr>Interval = 0, Timeout = 0, ranges = [PrefixFrom (AddrFrom4 [198, 51, 100, 0]) 24]\<rparr>"
  let ?m = "\<lparr>Providers = Some (GetIPRanges ?s)\<rparr>"
  let ?p = "PrefixFrom (AddrFrom4 [198, 51, 100, 0]) 24"
  have p1: "parseIPZoneFromString (RemoteAddr \<lparr>RemoteAddr = ''198.51.100.42:50000''\<rparr>)
       = ParseAddr ''198.51.100.42''"
    by (simp add: parse_peer_198_51_100_42 ParseAddr_198_51_100_42)
  have p2: "parseIPZoneFromString (RemoteAddr \<lparr>RemoteAddr = ''198.51.101.1:50000''\<rparr>)
       = ParseAddr ''198.51.101.1''"
    by (simp add: parse_peer_198_51_101_1 ParseAddr_198_51_101_1)
  have p3: "parseIPZoneFromString (RemoteAddr \<lparr>RemoteAddr = ''198.51.100.42:50000''\<rparr>)
       = Inr (AddrFrom4 [198, 51, 100, 42])"
    by (simp add: parse_peer_198_51_100_42)
  have g: "GetIPRanges ?s r = [?p]" for r
    by (simp add: GetIPRanges_def)
  have c1: "fst (Match ?m \<lparr>RemoteAddr = ''198.51.100.42:50000''\<rparr>) = True"
    using C1_Match_disjunction [of "\<lparr>RemoteAddr = ''198.51.100.42:50000''\<rparr>"
              "AddrFrom4 [198, 51, 100, 42]" ?m "GetIPRanges ?s" ?p]
          p1 g ParsePrefix_198_51_100_0_24
    by simp
  have c2: "fst (Match ?m \<lparr>RemoteAddr = ''198.51.101.1:50000''\<rparr>) = False"
    using C1_Match_disjunction [of "\<lparr>RemoteAddr = ''198.51.101.1:50000''\<rparr>"
              "AddrFrom4 [198, 51, 101, 1]" ?m "GetIPRanges ?s" ?p]
          p2 g ParsePrefix_198_51_100_0_24
    by simp
  have c3: "fst (Match ?m \<lparr>RemoteAddr = ''198.51.100.42:50000''\<rparr>)
     = (\<exists>p \<in> set [?p]. Contains p (AddrFrom4 [198, 51, 100, 42]))"
    using C1_Match_disjunction [of "\<lparr>RemoteAddr = ''198.51.100.42:50000''\<rparr>"
              "AddrFrom4 [198, 51, 100, 42]" ?m "GetIPRanges ?s" ?p]
          p3 g [of "\<lparr>RemoteAddr = ''198.51.100.42:50000''\<rparr>"]
    by (simp del: Set.bex_simps List.set_simps)
  have c0: "Providers ?m = Some (GetIPRanges ?s)"
    by simp
  from c0 ParsePrefix_198_51_100_0_24 p1 p2 c1 c2 c3
  show ?thesis
    by (intro conjI)
qed

text \<open>
  C2. When the peer address of the request does not parse, \<open>Match\<close> writes one error line to
  the log, with the error of the parser, and returns false. \<open>Match\<close> returns a boolean and
  nothing else: there is no error for the caller.
\<close>

theorem C2_Match_fail_closed:
  "parseIPZoneFromString (RemoteAddr r) = Inl err \<Longrightarrow>
     Match m r = (False, [LogError ''getting remote IP'' err])"
  by (simp add: Match_def)

theorem C2_Match_fail_closed_witness:
  "parseIPZoneFromString (RemoteAddr \<lparr>RemoteAddr = ''not-an-ip''\<rparr>)
     = Inl (parseAddrError ''not-an-ip'' UnableToParseIP)
   \<and> Match \<lparr>Providers = Some (\<lambda>_. [PrefixFrom (AddrFrom4 [0, 0, 0, 0]) 0])\<rparr>
        \<lparr>RemoteAddr = ''not-an-ip''\<rparr>
     = (False, [LogError ''getting remote IP'' (parseAddrError ''not-an-ip'' UnableToParseIP)])"
proof -
  have h: "parseIPZoneFromString (RemoteAddr \<lparr>RemoteAddr = ''not-an-ip''\<rparr>)
     = Inl (parseAddrError ''not-an-ip'' UnableToParseIP)"
    by (simp add: parse_peer_not_an_ip)
  show ?thesis
    using h C2_Match_fail_closed [OF h] by simp
qed

text \<open>C8. Without a range source (\<open>Providers\<close> is \<open>nil\<close>), \<open>Match\<close> returns false.\<close>

theorem C8_Match_no_source: "Providers m = None \<Longrightarrow> fst (Match m r) = False"
  by (simp add: Match_def split: sum.splits)

theorem C8_Match_no_source_witness:
  "Providers \<lparr>Providers = None\<rparr> = None
   \<and> fst (Match \<lparr>Providers = None\<rparr> \<lparr>RemoteAddr = ''198.51.100.42:50000''\<rparr>) = False"
proof -
  have h: "Providers \<lparr>Providers = None\<rparr> = None" by simp
  show ?thesis
    using h C8_Match_no_source [OF h, of "\<lparr>RemoteAddr = ''198.51.100.42:50000''\<rparr>"] by simp
qed

section \<open>Parsing the peer address\<close>

lemma SplitHostPort_203: "SplitHostPort ''203.0.113.5:443'' = Inr (''203.0.113.5'', ''443'')"
  by code_simp

lemma SplitHostPort_2001: "SplitHostPort ''[2001:db8::1%eth0]:443'' = Inr (''2001:db8::1%eth0'', ''443'')"
  by code_simp

lemma SplitHostPort_not_an_ip: "SplitHostPort ''not-an-ip'' = Inl (AddrError missingPort ''not-an-ip'')"
  by code_simp

lemma parse_peer_203: "parseIPZoneFromString ''203.0.113.5:443'' = Inr (AddrFrom4 [203, 0, 113, 5])"
  by code_simp

lemma parse_peer_2001:
  "parseIPZoneFromString ''[2001:db8::1%eth0]:443''
     = Inr (AddrFrom16 [0x20, 0x01, 0x0d, 0xb8, 0, 0, 0, 0, 0, 0, 0, 0, 0, 0, 0, 1])"
  by code_simp

text \<open>
  C4. \<open>parseIPZoneFromString\<close> gives \<open>203.0.113.5\<close> on \<open>203.0.113.5:443\<close>, gives
  \<open>2001:db8::1\<close> on \<open>[2001:db8::1%eth0]:443\<close> and fails on \<open>not-an-ip\<close>. When the address
  splits into host and port, the result is that of \<open>ParseAddr\<close> on the host up to its first
  \<open>%\<close>; when it does not split, the whole address takes the place of the host.
\<close>

theorem C4_parse_peer_address:
  "parseIPZoneFromString ''203.0.113.5:443'' = Inr (AddrFrom4 [203, 0, 113, 5])
   \<and> parseIPZoneFromString ''[2001:db8::1%eth0]:443''
       = Inr (AddrFrom16 [0x20, 0x01, 0x0d, 0xb8, 0, 0, 0, 0, 0, 0, 0, 0, 0, 0, 0, 1])
   \<and> parseIPZoneFromString ''not-an-ip'' = Inl (parseAddrError ''not-an-ip'' UnableToParseIP)
   \<and> (SplitHostPort address = Inr (host, port) \<longrightarrow>
        parseIPZoneFromString address = ParseAddr (takeWhile (\<lambda>c. c \<noteq> CHR ''%'') host))
   \<and> (SplitHostPort address = Inl err \<longrightarrow>
        parseIPZoneFromString address = ParseAddr (takeWhile (\<lambda>c. c \<noteq> CHR ''%'') address))"
  by (simp add: parse_peer_203 parse_peer_2001 parse_peer_not_an_ip)
     (simp add: parseIPZoneFromString_def Cut_byte)

lemma ParseAddr_203: "ParseAddr ''203.0.113.5'' = Inr (AddrFrom4 [203, 0, 113, 5])"
  by code_simp

lemma ParseAddr_not_an_ip: "ParseAddr ''not-an-ip'' = Inl (parseAddrError ''not-an-ip'' UnableToParseIP)"
  by code_simp

theorem C4_parse_peer_address_witness:
  "SplitHostPort ''203.0.113.5:443'' = Inr (''203.0.113.5'', ''443'')
   \<and> parseIPZoneFromString ''203.0.113.5:443''
       = ParseAddr (takeWhile (\<lambda>c. c \<noteq> CHR ''%'') ''203.0.113.5'')
   \<and> SplitHostPort ''not-an-ip'' = Inl (AddrError missingPort ''not-an-ip'')
   \<and> parseIPZoneFromString ''not-an-ip''
       = ParseAddr (takeWhile (\<lambda>c. c \<noteq> CHR ''%'') ''not-an-ip'')"
proof -
  have a: "parseIPZoneFromString ''203.0.113.5:443''
       = ParseAddr (takeWhile (\<lambda>c. c \<noteq> CHR ''%'') ''203.0.113.5'')"
    using C4_parse_peer_address [of "''203.0.113.5:443''" "''203.0.113.5''" "''443''"]
          SplitHostPort_203
    by blast
  have b: "parseIPZoneFromString ''not-an-ip''
       = ParseAddr (takeWhile (\<lambda>c. c \<noteq> CHR ''%'') ''not-an-ip'')"
    using C4_parse_peer_address [of "''not-an-ip''" _ _ "AddrError missingPort ''not-an-ip''"]
          SplitHostPort_not_an_ip
    by blast
  from SplitHostPort_203 a SplitHostPort_not_an_ip b show ?thesis
    by (intro conjI)
qed

text \<open>
  C10, as it is stated, fails for a host in brackets: the split of \<open>[::1]:80\<close> succeeds and
  removes the brackets, so the address parses to \<open>::1\<close>, while \<open>[::1]\<close> alone does not split
  and does not parse.
\<close>

theorem C10_bracketed_host_differs:
  "SplitHostPort (''[::1]'' @ '':'' @ ''80'') = Inr (''::1'', ''80'')
   \<and> parseIPZoneFromString (''[::1]'' @ '':'' @ ''80'')
       = Inr (AddrFrom16 [0, 0, 0, 0, 0, 0, 0, 0, 0, 0, 0, 0, 0, 0, 0, 1])
   \<and> parseIPZoneFromString ''[::1]'' = Inl (parseAddrError ''[::1]'' GroupNoDigit)"
  by code_simp

text \<open>
  C10, amended. When the split succeeds, the result is that of \<open>ParseAddr\<close> on the host
  that the split returns, up to its first \<open>%\<close>: two addresses that split to the same host
  parse alike, whatever their ports, and \<open>Match\<close> on the source of the repository decides
  alike. For a host \<open>h\<close> that does not begin with a bracket, when \<open>h:p\<close> splits, it splits
  into \<open>h\<close> and \<open>p\<close> and parses as \<open>h\<close> alone does.
\<close>

theorem C10_port_discarded:
  "(SplitHostPort address = Inr (host, port) \<longrightarrow>
      parseIPZoneFromString address = ParseAddr (takeWhile (\<lambda>c. c \<noteq> CHR ''%'') host))
   \<and> (SplitHostPort address = Inr (host, port) \<and> SplitHostPort address' = Inr (host, port') \<longrightarrow>
      parseIPZoneFromString address = parseIPZoneFromString address'
      \<and> Match \<lparr>Providers = Some (GetIPRanges s)\<rparr> \<lparr>RemoteAddr = address\<rparr>
          = Match \<lparr>Providers = Some (GetIPRanges s)\<rparr> \<lparr>RemoteAddr = address'\<rparr>)
   \<and> (take 1 h \<noteq> ''['' \<and> SplitHostPort (h @ '':'' @ p) = Inr (host, port) \<longrightarrow>
      host = h \<and> port = p
      \<and> parseIPZoneFromString (h @ '':'' @ p) = parseIPZoneFromString h)"
proof (intro conjI impI)
  assume "SplitHostPort address = Inr (host, port)"
  then show "parseIPZoneFromString address = ParseAddr (takeWhile (\<lambda>c. c \<noteq> CHR ''%'') host)"
    by (rule parse_peer_host)
next
  assume a: "SplitHostPort address = Inr (host, port) \<and> SplitHostPort address' = Inr (host, port')"
  then show e: "parseIPZoneFromString address = parseIPZoneFromString address'"
    by (simp add: parse_peer_host)
  then show "Match \<lparr>Providers = Some (GetIPRanges s)\<rparr> \<lparr>RemoteAddr = address\<rparr>
          = Match \<lparr>Providers = Some (GetIPRanges s)\<rparr> \<lparr>RemoteAddr = address'\<rparr>"
    by (simp add: Match_def GetIPRanges_def split: sum.splits)
next
  assume a: "take 1 h \<noteq> ''['' \<and> SplitHostPort (h @ '':'' @ p) = Inr (host, port)"
  then show "host = h" "port = p"
    using SplitHostPort_unbracketed [of h p host port] by simp_all
  from a show "parseIPZoneFromString (h @ '':'' @ p) = parseIPZoneFromString h"
    using parse_peer_unbracketed [of h p host port] by simp
qed

lemma SplitHostPort_1_2_3_4_garbage:
  "SplitHostPort ''1.2.3.4:garbage'' = Inr (''1.2.3.4'', ''garbage'')"
  by code_simp

lemma SplitHostPort_1_2_3_4_443: "SplitHostPort ''1.2.3.4:443'' = Inr (''1.2.3.4'', ''443'')"
  by code_simp

theorem C10_port_discarded_witness:
  "SplitHostPort ''1.2.3.4:garbage'' = Inr (''1.2.3.4'', ''garbage'')
   \<and> SplitHostPort ''1.2.3.4:443'' = Inr (''1.2.3.4'', ''443'')
   \<and> take 1 ''1.2.3.4'' \<noteq> ''[''
   \<and> SplitHostPort (''1.2.3.4'' @ '':'' @ ''garbage'') = Inr (''1.2.3.4'', ''garbage'')
   \<and> parseIPZoneFromString ''1.2.3.4:garbage''
       = ParseAddr (takeWhile (\<lambda>c. c \<noteq> CHR ''%'') ''1.2.3.4'')
   \<and> parseIPZoneFromString ''1.2.3.4:garbage'' = parseIPZoneFromString ''1.2.3.4:443''
   \<and> Match \<lparr>Providers = Some (GetIPRanges \<lparr>Interval = 0, Timeout = 0, ranges = []\<rparr>)\<rparr>
         \<lparr>RemoteAddr = ''1.2.3.4:garbage''\<rparr>
       = Match \<lparr>Providers = Some (GetIPRanges \<lparr>Interval = 0, Timeout = 0, ranges = []\<rparr>)\<rparr>
           \<lparr>RemoteAddr = ''1.2.3.4:443''\<rparr>
   \<and> parseIPZoneFromString (''1.2.3.4'' @ '':'' @ ''garbage'') = parseIPZoneFromString ''1.2.3.4''"
proof -
  note t = C10_port_discarded [of "''1.2.3.4:garbage''" "''1.2.3.4''" "''garbage''"
             "''1.2.3.4:443''" "''443''" "\<lparr>Interval = 0, Timeout = 0, ranges = []\<rparr>"
             "''1.2.3.4''" "''garbage''"]
  have a: "SplitHostPort ''1.2.3.4:garbage'' = Inr (''1.2.3.4'', ''garbage'')"
    by (rule SplitHostPort_1_2_3_4_garbage)
  have b: "SplitHostPort ''1.2.3.4:443'' = Inr (''1.2.3.4'', ''443'')"
    by (rule SplitHostPort_1_2_3_4_443)
  have c: "take 1 ''1.2.3.4'' \<noteq> ''[''" by simp
  have d: "SplitHostPort (''1.2.3.4'' @ '':'' @ ''garbage'') = Inr (''1.2.3.4'', ''garbage'')"
    using a by simp
  from t a b c d show ?thesis by blast
qed

section \<open>Containment\<close>

text \<open>
  C9. For an address without zone and a prefix, both as the package builds them,
  \<open>Contains\<close> is true exactly if the prefix is valid, the address is of the family of the
  prefix, and the address masked to the length of the prefix is the network value of the
  prefix. Across families \<open>Contains\<close> is false. The addresses that \<open>Match\<close> tests, the
  results of \<open>parseIPZoneFromString\<close>, have no zone; they and the prefixes that
  \<open>ParsePrefix\<close> returns are as the package builds them.
\<close>

theorem C9_Contains_family_and_mask:
  "(Addr_inv a \<and> \<not> hasZone a \<and> Prefix_inv p \<longrightarrow> Contains p a = contains_spec p a)
   \<and> (family_of a \<noteq> family_of (ip p) \<longrightarrow> \<not> Contains p a)
   \<and> (parseIPZoneFromString raw = Inr a \<longrightarrow> Addr_inv a \<and> \<not> hasZone a)
   \<and> (ParsePrefix line = Inr p \<longrightarrow> Prefix_inv p)"
  using Contains_eq_spec [of a p] Contains_cross_family [of a p] parse_peer_inv [of raw a]
        ParsePrefix_inv [of line p]
  by blast

theorem C9_Contains_family_and_mask_witness:
  "Addr_inv (AddrFrom4 [198, 51, 100, 42])
   \<and> \<not> hasZone (AddrFrom4 [198, 51, 100, 42])
   \<and> Prefix_inv (PrefixFrom (AddrFrom4 [198, 51, 100, 0]) 24)
   \<and> Contains (PrefixFrom (AddrFrom4 [198, 51, 100, 0]) 24) (AddrFrom4 [198, 51, 100, 42])
       = contains_spec (PrefixFrom (AddrFrom4 [198, 51, 100, 0]) 24) (AddrFrom4 [198, 51, 100, 42])
   \<and> family_of (AddrFrom4 [198, 51, 100, 42])
       \<noteq> family_of (ip (PrefixFrom
             (AddrFrom16 [0x24, 0, 0xcb, 0, 0, 0, 0, 0, 0, 0, 0, 0, 0, 0, 0, 0]) 32))
   \<and> \<not> Contains (PrefixFrom (AddrFrom16 [0x24, 0, 0xcb, 0, 0, 0, 0, 0, 0, 0, 0, 0, 0, 0, 0, 0]) 32)
         (AddrFrom4 [198, 51, 100, 42])
   \<and> parseIPZoneFromString ''198.51.100.42:50000'' = Inr (AddrFrom4 [198, 51, 100, 42])
   \<and> ParsePrefix ''198.51.100.0/24'' = Inr (PrefixFrom (AddrFrom4 [198, 51, 100, 0]) 24)"
proof -
  let ?a = "AddrFrom4 [198, 51, 100, 42]"
  let ?p = "PrefixFrom (AddrFrom4 [198, 51, 100, 0]) 24"
  let ?p6 = "PrefixFrom (AddrFrom16 [0x24, 0, 0xcb, 0, 0, 0, 0, 0, 0, 0, 0, 0, 0, 0, 0, 0]) 32"
  note t = C9_Contains_family_and_mask [of ?a ?p "''198.51.100.42:50000''" "''198.51.100.0/24''"]
  note t6 = C9_Contains_family_and_mask [of ?a ?p6]
  have r: "parseIPZoneFromString ''198.51.100.42:50000'' = Inr ?a"
    by (rule parse_peer_198_51_100_42)
  have l: "ParsePrefix ''198.51.100.0/24'' = Inr ?p"
    by (rule ParsePrefix_198_51_100_0_24)
  from t r have a: "Addr_inv ?a \<and> \<not> hasZone ?a" by blast
  from t l have p: "Prefix_inv ?p" by blast
  from t a p have c: "Contains ?p ?a = contains_spec ?p ?a" by blast
  have f: "family_of ?a \<noteq> family_of (ip ?p6)"
    by (simp only: family_of_AddrFrom4 family_of_PrefixFrom16) simp
  from t6 f have n: "\<not> Contains ?p6 ?a" by blast
  from a p c f n r l show ?thesis by blast
qed

section \<open>Provisioning and the refresh loop\<close>








text \<open>
  C6, as it is stated, fails for a negative duration: the timeout -1 is used as it is, and
  the interval -1 is given to \<open>time.NewTicker\<close>, which panics.
\<close>

theorem C6_negative_not_defaulted:
  "sint (Interval \<lparr>Interval = - 1, Timeout = - 1, ranges = []\<rparr>) \<le> 0
   \<and> sint (Timeout \<lparr>Interval = - 1, Timeout = - 1, ranges = []\<rparr>) \<le> 0
   \<and> fetch_timeout \<lparr>Interval = - 1, Timeout = - 1, ranges = []\<rparr> = - 1
   \<and> fetch_timeout \<lparr>Interval = - 1, Timeout = - 1, ranges = []\<rparr> \<noteq> 15 * Second
   \<and> refreshLoop_ticker \<lparr>Interval = - 1, Timeout = - 1, ranges = []\<rparr> = Inl NonPositiveTickerInterval
   \<and> refreshLoop_ticker \<lparr>Interval = - 1, Timeout = - 1, ranges = []\<rparr>
       \<noteq> Inr (\<lparr>Interval = Hour, Timeout = - 1, ranges = []\<rparr>, Hour)"
  by (simp add: fetch_timeout_def refreshLoop_ticker_def Second_def)

lemma sint_Hour: "sint Hour = 3600000000000"
  by (simp add: Hour_def Second_def)

text \<open>
  C6, amended. An interval of 0 (also: left out) makes the ticker run with one hour, and a
  timeout of 0 makes every request run with 15 seconds; the module behaves as one configured
  with these values. A positive interval or timeout is used as it is, whatever its size.
\<close>

theorem C6_zero_defaults:
  "(Interval s = 0 \<longrightarrow>
      refreshLoop_ticker s = Inr (s\<lparr>Interval := Hour\<rparr>, Hour)
      \<and> refreshLoop s evs = refreshLoop (s\<lparr>Interval := Hour\<rparr>) evs)
   \<and> (Timeout s = 0 \<longrightarrow>
      fetch_timeout s = 15 * Second
      \<and> fetch net s api = fetch net (s\<lparr>Timeout := 15 * Second\<rparr>) api)
   \<and> (0 < sint (Interval s) \<longrightarrow> refreshLoop_ticker s = Inr (s, Interval s))
   \<and> (0 < sint (Timeout s) \<longrightarrow> fetch_timeout s = Timeout s)"
proof (intro conjI impI)
  assume z: "Interval s = 0"
  then show t: "refreshLoop_ticker s = Inr (s\<lparr>Interval := Hour\<rparr>, Hour)"
    by (simp add: refreshLoop_ticker_def sint_Hour)
  have "refreshLoop_ticker (s\<lparr>Interval := Hour\<rparr>) = Inr (s\<lparr>Interval := Hour\<rparr>, Hour)"
    by (simp add: refreshLoop_ticker_def sint_Hour) (simp add: Hour_def Second_def)
  with t show "refreshLoop s evs = refreshLoop (s\<lparr>Interval := Hour\<rparr>) evs"
    by (simp add: refreshLoop_def)
next
  assume z: "Timeout s = 0"
  then show "fetch_timeout s = 15 * Second"
    by (simp add: fetch_timeout_def)
  from z show "fetch net s api = fetch net (s\<lparr>Timeout := 15 * Second\<rparr>) api"
    by (simp add: fetch_def fetch_timeout_def Second_def)
next
  assume "0 < sint (Interval s)"
  then show "refreshLoop_ticker s = Inr (s, Interval s)"
    by (auto simp: refreshLoop_ticker_def)
next
  assume "0 < sint (Timeout s)"
  then show "fetch_timeout s = Timeout s"
    by (auto simp: fetch_timeout_def)
qed

theorem C6_zero_defaults_witness:
  "Interval \<lparr>Interval = 0, Timeout = 0, ranges = []\<rparr> = 0
   \<and> Timeout \<lparr>Interval = 0, Timeout = 0, ranges = []\<rparr> = 0
   \<and> refreshLoop_ticker \<lparr>Interval = 0, Timeout = 0, ranges = []\<rparr>
       = Inr (\<lparr>Interval = Hour, Timeout = 0, ranges = []\<rparr>, Hour)
   \<and> fetch_timeout \<lparr>Interval = 0, Timeout = 0, ranges = []\<rparr> = 15 * Second
   \<and> 0 < sint (Interval \<lparr>Interval = 0x7fffffffffffffff, Timeout = 0x7fffffffffffffff, ranges = []\<rparr>)
   \<and> 0 < sint (Timeout \<lparr>Interval = 0x7fffffffffffffff, Timeout = 0x7fffffffffffffff, ranges = []\<rparr>)
   \<and> refreshLoop_ticker \<lparr>Interval = 0x7fffffffffffffff, Timeout = 0x7fffffffffffffff, ranges = []\<rparr>
       = Inr (\<lparr>Interval = 0x7fffffffffffffff, Timeout = 0x7fffffffffffffff, ranges = []\<rparr>,
              0x7fffffffffffffff)
   \<and> fetch_timeout \<lparr>Interval = 0x7fffffffffffffff, Timeout = 0x7fffffffffffffff, ranges = []\<rparr>
       = 0x7fffffffffffffff"
proof -
  let ?z = "\<lparr>Interval = 0, Timeout = 0, ranges = []\<rparr>"
  let ?b = "\<lparr>Interval = 0x7fffffffffffffff, Timeout = 0x7fffffffffffffff, ranges = []\<rparr>"
  have z1: "Interval ?z = 0" and z2: "Timeout ?z = 0" by simp_all
  have b1: "0 < sint (Interval ?b)" and b2: "0 < sint (Timeout ?b)" by simp_all
  from C6_zero_defaults [of ?z] z1 z2 C6_zero_defaults [of ?b] b1 b2
  show ?thesis
    by simp
qed

lemma ParsePrefix_173: "ParsePrefix ''173.245.48.0/20'' = Inr (PrefixFrom (AddrFrom4 [173, 245, 48, 0]) 20)"
  by code_simp

lemma ParsePrefix_2400:
  "ParsePrefix ''2400:cb00::/32''
     = Inr (PrefixFrom (AddrFrom16 [0x24, 0, 0xcb, 0, 0, 0, 0, 0, 0, 0, 0, 0, 0, 0, 0, 0]) 32)"
  by code_simp

lemma fetch_loop_173:
  "fetch_loop (''173.245.48.0/20'' @ CHR 0x0A # rest) rerr prefixes
     = fetch_loop rest rerr (prefixes @ [PrefixFrom (AddrFrom4 [173, 245, 48, 0]) 20])"
  by (subst fetch_loop.simps, subst Scan_line)
     (simp_all add: MaxScanTokenSize_def dropCR_def ParsePrefix_173)

lemma fetch_loop_2400:
  "fetch_loop (''2400:cb00::/32'' @ CHR 0x0A # rest) rerr prefixes
     = fetch_loop rest rerr
         (prefixes @ [PrefixFrom (AddrFrom16 [0x24, 0, 0xcb, 0, 0, 0, 0, 0, 0, 0, 0, 0, 0, 0, 0, 0]) 32])"
  by (subst fetch_loop.simps, subst Scan_line)
     (simp_all add: MaxScanTokenSize_def dropCR_def ParsePrefix_2400)

lemma fetch_loop_body_v4:
  "fetch_loop ''173.245.48.0/20\<newline>'' rerr prefixes
     = Inr (prefixes @ [PrefixFrom (AddrFrom4 [173, 245, 48, 0]) 20])"
proof -
  have "''173.245.48.0/20\<newline>'' = ''173.245.48.0/20'' @ CHR 0x0A # []" by simp
  then show ?thesis
    by (simp only: fetch_loop_173 fetch_loop_end)
qed

lemma fetch_loop_body_v6:
  "fetch_loop ''2400:cb00::/32\<newline>'' rerr prefixes
     = Inr (prefixes @ [PrefixFrom (AddrFrom16 [0x24, 0, 0xcb, 0, 0, 0, 0, 0, 0, 0, 0, 0, 0, 0, 0, 0]) 32])"
proof -
  have "''2400:cb00::/32\<newline>'' = ''2400:cb00::/32'' @ CHR 0x0A # []" by simp
  then show ?thesis
    by (simp only: fetch_loop_2400 fetch_loop_end)
qed

lemma getPrefixes_first_error:
  "fetch net s ipv4 = Inl err \<Longrightarrow> getPrefixes net s = Inl err"
  by (simp add: getPrefixes_def)

lemma getPrefixes_second_error:
  "fetch net s ipv4 = Inr prefixes \<Longrightarrow> fetch net s ipv6 = Inl err \<Longrightarrow>
     getPrefixes net s = Inl err"
  by (simp add: getPrefixes_def)

lemma getPrefixes_both:
  "fetch net s ipv4 = Inr v4 \<Longrightarrow> fetch net s ipv6 = Inr v6 \<Longrightarrow>
     getPrefixes net s = Inr (v4 @ v6)"
  by (simp add: getPrefixes_def)

lemma refresh_tick_error:
  "getPrefixes net s = Inl err \<Longrightarrow>
     refresh_tick net s = (s, [LogWarn ''could not refresh cloudflare ips'' err])"
  by (simp add: refresh_tick_def)

text \<open>
  C3. An error that \<open>fetch\<close> returns for either endpoint ends the cycle with that error and
  leaves the snapshot as it was (the four lemmas above). But \<open>fetch\<close> does not return an
  error for every failure of an endpoint: when reading the body of the IPv6 list fails
  after its first line, \<open>fetch\<close> returns that line, and the cycle installs the IPv4 list and
  the one IPv6 prefix in the place of the previous snapshot.
\<close>

theorem C3_partial_cycle_installed:
  "refresh_tick
     (\<lambda>api timeout.
        if api = ipv4 then Response ''173.245.48.0/20\<newline>'' None
        else Response ''2400:cb00::/32\<newline>'' (Some ''context deadline exceeded''))
     \<lparr>Interval = 0, Timeout = 0, ranges = [PrefixFrom (AddrFrom4 [203, 0, 113, 0]) 24]\<rparr>
   = (\<lparr>Interval = 0, Timeout = 0,
       ranges = [PrefixFrom (AddrFrom4 [173, 245, 48, 0]) 20,
                 PrefixFrom (AddrFrom16 [0x24, 0, 0xcb, 0, 0, 0, 0, 0, 0, 0, 0, 0, 0, 0, 0, 0]) 32]\<rparr>,
      [LogDebugCount ''cloudflare ip ranges refreshed'' 2])"
  by (simp add: refresh_tick_def getPrefixes_def fetch_def ipv4_def ipv6_def
        fetch_loop_body_v4 fetch_loop_body_v6)

section \<open>Parsing a body\<close>

lemma ParsePrefix_error: "ParsePrefix s = Inl err \<Longrightarrow> \<exists>m. err = parsePrefixError s m"
  by (auto simp: ParsePrefix_def Let_def split: if_splits sum.splits option.splits)

lemma parse_prefix_list_error:
  "parse_prefix_list ls = Inl err \<Longrightarrow>
     \<exists>l \<in> set ls. dropCR l \<noteq> [] \<and> ParsePrefix (dropCR l) = Inl err
        \<and> (\<exists>m. err = parsePrefixError (dropCR l) m)"
  by (induction ls) (auto split: if_splits sum.splits dest: ParsePrefix_error)

lemma parse_prefix_list_all_valid:
  "\<forall>l \<in> set ls. dropCR l \<noteq> [] \<longrightarrow> isl (ParsePrefix (dropCR l)) = False \<Longrightarrow>
     parse_prefix_list ls
       = Inr (map (\<lambda>l. projr (ParsePrefix (dropCR l))) (filter (\<lambda>l. dropCR l \<noteq> []) ls))"
  by (induction ls) (auto split: sum.splits)

lemma fetch_loop_short_lines:
  "\<forall>l \<in> set (body_lines buf). length l < MaxScanTokenSize \<Longrightarrow>
     fetch_loop buf rerr prefixes
       = (case parse_prefix_list (body_lines buf) of
            Inl err \<Rightarrow> Inl err
          | Inr ps \<Rightarrow> Inr (prefixes @ ps))"
proof (induction buf arbitrary: prefixes rule: body_lines.induct)
  case (1 buf)
  show ?case
  proof (cases "buf = []")
    case True
    then show ?thesis
      by (subst fetch_loop.simps) (simp add: Scan_def body_lines.simps)
  next
    case False
    define line where "line = takeWhile (\<lambda>c. c \<noteq> CHR 0x0A) buf"
    define rest where "rest = drop (length line + 1) buf"
    from False have bl: "body_lines buf = line # body_lines rest"
      by (subst body_lines.simps) (simp add: line_def rest_def Let_def)
    with "1.prems" have short: "length line < MaxScanTokenSize"
      and rest_short: "\<forall>l \<in> set (body_lines rest). length l < MaxScanTokenSize"
      by simp_all
    from False short have sc: "Scan buf rerr = Token (dropCR line) rest"
      by (simp add: Scan_def line_def rest_def Let_def)
    have ih: "fetch_loop rest rerr ps'
       = (case parse_prefix_list (body_lines rest) of
            Inl err \<Rightarrow> Inl err
          | Inr ps \<Rightarrow> Inr (ps' @ ps))" for ps'
      using "1.IH" [OF False line_def, folded rest_def] rest_short by simp
    show ?thesis
      by (subst fetch_loop.simps) (simp add: sc ih bl split: sum.splits)
  qed
qed

text \<open>
  C7. On a body whose lines are all shorter than \<open>MaxScanTokenSize\<close>, the loop of \<open>fetch\<close>
  is the parser that the specification words (\<open>fetch_loop_short_lines\<close>), whose error is
  that of the first line that does not parse and names that line
  (\<open>parse_prefix_list_error\<close>). But a line of \<open>MaxScanTokenSize\<close> bytes or more, which is not
  a prefix, ends the loop without an error: \<open>fetch\<close> returns the prefixes of the lines
  before it.
\<close>

theorem C7_too_long_line_ends_the_body:
  "fetch_loop (''173.245.48.0/20'' @ CHR 0x0A # replicate 65536 (CHR ''x'') @ [CHR 0x0A]) None []
     = Inr [PrefixFrom (AddrFrom4 [173, 245, 48, 0]) 20]
   \<and> ParsePrefix (replicate 65536 (CHR ''x''))
     = Inl (parsePrefixError (replicate 65536 (CHR ''x'')) NoSlash)"
proof
  have "fetch_loop (replicate 65536 (CHR ''x'') @ CHR 0x0A # []) None
          ([] @ [PrefixFrom (AddrFrom4 [173, 245, 48, 0]) 20])
        = Inr ([] @ [PrefixFrom (AddrFrom4 [173, 245, 48, 0]) 20])"
    by (rule fetch_loop_too_long) (simp_all add: MaxScanTokenSize_def)
  then show "fetch_loop (''173.245.48.0/20'' @ CHR 0x0A # replicate 65536 (CHR ''x'') @ [CHR 0x0A])
          None [] = Inr [PrefixFrom (AddrFrom4 [173, 245, 48, 0]) 20]"
    by (simp only: fetch_loop_173 append_Nil)
  show "ParsePrefix (replicate 65536 (CHR ''x''))
     = Inl (parsePrefixError (replicate 65536 (CHR ''x'')) NoSlash)"
    by (rule ParsePrefix_no_slash)
qed

end
